theory Spec2Isabelle
  imports Complex_Main
begin

section \<open>JavaScript numbers, primitives and plain objects\<close>

text \<open>
  A JavaScript number is \<open>NaN\<close>, one of the two infinities, or a finite value. Finite
  values are kept as exact rationals: byte counts and millisecond values are integers, on
  which the arithmetic of doubles is exact up to \<open>2^53\<close>.
\<close>

datatype jsnum = NaN | NegInf | Fin rat | PosInf

text \<open>\<open>a < b\<close> on numbers: every comparison with \<open>NaN\<close> is false.\<close>

fun jsnum_less :: "jsnum \<Rightarrow> jsnum \<Rightarrow> bool" where
  "jsnum_less NaN b = False"
| "jsnum_less a NaN = False"
| "jsnum_less NegInf NegInf = False"
| "jsnum_less NegInf b = True"
| "jsnum_less (Fin a) NegInf = False"
| "jsnum_less (Fin a) (Fin b) = (a < b)"
| "jsnum_less (Fin a) PosInf = True"
| "jsnum_less PosInf b = False"

text \<open>\<open>a <= b\<close> on numbers.\<close>

fun jsnum_le :: "jsnum \<Rightarrow> jsnum \<Rightarrow> bool" where
  "jsnum_le NaN b = False"
| "jsnum_le a NaN = False"
| "jsnum_le NegInf b = True"
| "jsnum_le (Fin a) NegInf = False"
| "jsnum_le (Fin a) (Fin b) = (a \<le> b)"
| "jsnum_le (Fin a) PosInf = True"
| "jsnum_le PosInf PosInf = True"
| "jsnum_le PosInf b = False"

text \<open>A number is truthy unless it is \<open>0\<close> or \<open>NaN\<close> (\<open>x || y\<close> picks \<open>y\<close> then).\<close>

definition truthy :: "jsnum \<Rightarrow> bool" where
  "truthy n = (n \<noteq> NaN \<and> n \<noteq> Fin 0)"

definition isNaN :: "jsnum \<Rightarrow> bool" where
  "isNaN n = (n = NaN)"

text \<open>
  The values a property of \<open>props\<close> may hold are the primitives. Strings are sequences of
  8-bit code units.
\<close>

datatype prim = Undefined | Null | Bool bool | Num jsnum | Str string

text \<open>
  The unary plus \<open>+v\<close>. The conversion of a string to a number is the language's own
  (\<open>StringToNumber\<close>, with its rounding to a double); it is the parameter \<open>str2num\<close> of
  every definition that converts, and every theorem holds for each such function.
\<close>

fun to_number :: "(string \<Rightarrow> jsnum) \<Rightarrow> prim \<Rightarrow> jsnum" where
  "to_number str2num Undefined = NaN"
| "to_number str2num Null = Fin 0"
| "to_number str2num (Bool b) = Fin (if b then 1 else 0)"
| "to_number str2num (Num n) = n"
| "to_number str2num (Str s) = str2num s"

text \<open>\<open>a === b\<close> on primitives: \<open>NaN\<close> is not equal to itself.\<close>

definition strict_eq :: "prim \<Rightarrow> prim \<Rightarrow> bool" where
  "strict_eq a b = (a = b \<and> a \<noteq> Num NaN)"

text \<open>\<open>v == null\<close> holds of \<open>null\<close> and \<open>undefined\<close> only.\<close>

definition eq_null :: "prim \<Rightarrow> bool" where
  "eq_null v = (v = Null \<or> v = Undefined)"

text \<open>
  A plain object (\<open>props\<close>, the result of \<open>toJSON\<close>, the metadata of an error) maps its
  own property names to primitives. Reading a missing property gives \<open>undefined\<close>;
  \<open>Object.assign\<close> copies the own properties of each source over the target, from left to
  right, and skips a source that is \<open>null\<close> or \<open>undefined\<close>.
\<close>

type_synonym obj = "string \<rightharpoonup> prim"

definition get_prop :: "obj \<Rightarrow> string \<Rightarrow> prim" where
  "get_prop ob k = (case ob k of None \<Rightarrow> Undefined | Some v \<Rightarrow> v)"

definition assign :: "obj \<Rightarrow> obj option \<Rightarrow> obj" where
  "assign target src = (case src of None \<Rightarrow> target | Some ob \<Rightarrow> target ++ ob)"

section \<open>The patterns of the stream module\<close>

text \<open>
  \<open>\w\<close> is a letter, a digit or the underscore; \<open>.\<close> is any code unit but a line
  terminator.
\<close>

definition word_char :: "char \<Rightarrow> bool" where
  "word_char c = (let n = (of_char c :: nat) in
     (48 \<le> n \<and> n \<le> 57) \<or> (65 \<le> n \<and> n \<le> 90) \<or> n = 95 \<or> (97 \<le> n \<and> n \<le> 122))"

definition subtype_char :: "char \<Rightarrow> bool" where
  "subtype_char c = (word_char c \<or> c = CHR ''-'')"

definition line_terminator :: "char \<Rightarrow> bool" where
  "line_terminator c = ((of_char c :: nat) = 10 \<or> (of_char c :: nat) = 13)"

definition starts_with :: "string \<Rightarrow> string \<Rightarrow> bool" where
  "starts_with s p = (take (length p) s = p)"

definition TYPE_NAMES :: "string list" where
  "TYPE_NAMES = [''application'', ''audio'', ''image'', ''multipart'', ''text'', ''video'']"

text \<open>
  \<open>CONTENT_TYPES = /^((application|audio|image|multipart|text|video)\/([\w-]+));?.*$/\<close>.
  \<open>CONTENT_TYPES_exec s\<close> is the first group of the match, the MIME type without its
  parameters, or \<open>None\<close> when \<open>s\<close> does not match: after the type name and the slash
  the subtype is the longest run of \<open>[\w-]\<close>, which must not be empty, and what follows
  must hold no line terminator (a shorter subtype leaves the same line terminator behind).
\<close>

definition CONTENT_TYPES_exec :: "string \<Rightarrow> string option" where
  "CONTENT_TYPES_exec s =
     (case List.find (\<lambda>t. starts_with s (t @ ''/'')) TYPE_NAMES of
        None \<Rightarrow> None
      | Some t \<Rightarrow>
          (let rest = drop (length t + 1) s;
               subtype = takeWhile subtype_char rest;
               params = dropWhile subtype_char rest
           in if subtype = [] \<or> list_ex line_terminator params then None
              else Some (t @ ''/'' @ subtype)))"

text \<open>
  \<open>RegExp.test\<close> converts its argument to a string first. The strings of \<open>undefined\<close>,
  \<open>null\<close>, a boolean and a number match none of the patterns here.
\<close>

definition CONTENT_TYPES_test :: "prim \<Rightarrow> bool" where
  "CONTENT_TYPES_test v = (case v of Str s \<Rightarrow> CONTENT_TYPES_exec s \<noteq> None | _ \<Rightarrow> False)"

text \<open>\<open>CONTENT_ENCODINGS = /^(identity|gzip|deflate)$/\<close>\<close>

definition CONTENT_ENCODINGS_test :: "prim \<Rightarrow> bool" where
  "CONTENT_ENCODINGS_test v =
     (case v of Str s \<Rightarrow> s = ''identity'' \<or> s = ''gzip'' \<or> s = ''deflate'' | _ \<Rightarrow> False)"

text \<open>\<open>DESERIALIZABLE_TYPES = /^application\/(json|msgpack|x-www-form-urlencoded)$/\<close>\<close>

definition DESERIALIZABLE_TYPES_test :: "string \<Rightarrow> bool" where
  "DESERIALIZABLE_TYPES_test s =
     (s = ''application/json'' \<or> s = ''application/msgpack''
      \<or> s = ''application/x-www-form-urlencoded'')"

text \<open>\<open>COMPRESSED_ENCODINGS = /^(gzip|deflate)$/\<close>\<close>

definition COMPRESSED_ENCODINGS_test :: "prim \<Rightarrow> bool" where
  "COMPRESSED_ENCODINGS_test v = (case v of Str s \<Rightarrow> s = ''gzip'' \<or> s = ''deflate'' | _ \<Rightarrow> False)"

section \<open>Errors\<close>

text \<open>
  \<open>SmartStreamError\<close> is the error family of the stream module, with the four codes of
  \<open>modules/stream/lib/error.js\<close>. An error made by \<open>SmartStreamError.Code(metadata, cause)\<close>
  carries its code, its metadata and its cause; when the metadata is itself an error, the
  constructor of \<open>SmartError\<close> moves it to the cause. The other constructors of \<open>fault\<close>
  are the \<open>TypeError\<close>s and \<open>Error\<close>s the code throws, one for each message:
  those of the constructor of the stream, those of the timer, \<open>NotAnObject\<close> for a call
  on a value that has no such method (\<open>undefined.touch()\<close>), and \<open>CodecError\<close> for
  whatever a codec library throws. The metadata of an \<open>Unexpected\<close> error made from a
  message is kept as the value the message quotes.
\<close>

datatype code = Unexpected | TooLarge | TimedOut | MultipleSources

datatype metadata =
    NoMetadata
  | MetaObj obj
  | UnknownCompressionMsg prim
  | UnknownMimeTypeMsg string

datatype fault =
    PropsRequired
  | InvalidMimeType prim
  | InvalidEncoding prim
  | InvalidContentLength prim
  | InvalidLimit prim
  | TimeoutBelowInterval prim prim
  | InvalidTimerTimeout prim
  | InvalidTimerInterval prim
  | IntervalExceedsTimeout jsnum jsnum
  | TimerDestroyed
  | NotAnObject
  | CodecError
  | SmartStreamError code metadata "fault option"

definition isSmartStreamError :: "fault \<Rightarrow> bool" where
  "isSmartStreamError e = (case e of SmartStreamError c m cause \<Rightarrow> True | _ \<Rightarrow> False)"

text \<open>\<open>SmartStreamError.Unexpected(err)\<close> for an error \<open>err\<close>: the error becomes the cause.\<close>

definition Unexpected_of :: "fault \<Rightarrow> fault" where
  "Unexpected_of err = SmartStreamError Unexpected NoMetadata (Some err)"

section \<open>The inactivity timer (\<open>SmartTimer\<close>)\<close>

text \<open>
  The timer keeps its two settings, the handles of its two scheduled callbacks (\<open>True\<close>
  while a handle is set, \<open>False\<close> once it is \<open>null\<close>), the activity flag, the time of the
  last recorded activity and the \<open>_destroyed\<close> flag. \<open>Date.now()\<close> is the argument
  \<open>now\<close> of each operation that reads the clock. The settings are kept as numbers: the
  stream passes numbers (two strings would be compared as text by \<open>interval > timeout\<close>).
  The form of the constructor that takes the callback as its first argument is not part
  of the model; the stream always passes an object.
\<close>

record smart_timer =
  t_timeout :: jsnum
  t_interval :: jsnum
  timeoutTimer :: bool
  intervalTimer :: bool
  hadActivity :: bool
  lastActivity :: rat
  destroyed :: bool

definition DEFAULT_PROPS :: obj where
  "DEFAULT_PROPS = [''timeout'' \<mapsto> Num (Fin 30000), ''interval'' \<mapsto> Num (Fin 1000)]"

definition new_SmartTimer :: "(string \<Rightarrow> jsnum) \<Rightarrow> rat \<Rightarrow> obj option \<Rightarrow> fault + smart_timer" where
  "new_SmartTimer str2num now props =
     (let given = (case props of None \<Rightarrow> Map.empty | Some p \<Rightarrow> p) in
      if props \<noteq> None \<and> jsnum_less (to_number str2num (get_prop given ''timeout'')) (Fin 0)
        then Inl (InvalidTimerTimeout (get_prop given ''timeout''))
      else if props \<noteq> None \<and> jsnum_less (to_number str2num (get_prop given ''interval'')) (Fin 0)
        then Inl (InvalidTimerInterval (get_prop given ''interval''))
      else
        (let merged = assign (assign Map.empty (Some DEFAULT_PROPS)) props;
             timeout = to_number str2num (get_prop merged ''timeout'');
             interval = to_number str2num (get_prop merged ''interval'')
         in if jsnum_less timeout interval then Inl (IntervalExceedsTimeout interval timeout)
            else Inr \<lparr> t_timeout = timeout, t_interval = interval,
                       timeoutTimer = True, intervalTimer = True,
                       hadActivity = False, lastActivity = now, destroyed = False \<rparr>))"

definition onInterval :: "rat \<Rightarrow> smart_timer \<Rightarrow> smart_timer" where
  "onInterval now t =
     (if hadActivity t then t\<lparr>lastActivity := now, hadActivity := False\<rparr> else t)"

text \<open>
  \<open>destroy\<close> tests \<open>this.destroyed\<close>, a property the timer never sets, so its body runs
  on every call; the body itself does nothing the second time.
\<close>

definition timer_destroy :: "smart_timer \<Rightarrow> smart_timer" where
  "timer_destroy t = t\<lparr>timeoutTimer := False, intervalTimer := False, destroyed := True\<rparr>"

text \<open>
  \<open>_onTimeout\<close> returns the timer and, when it emits \<open>timeout\<close>, the duration it emits.
  A rescheduled check leaves the handle set.
\<close>

definition onTimeout :: "rat \<Rightarrow> smart_timer \<Rightarrow> smart_timer \<times> rat option" where
  "onTimeout now t =
     (let t1 = onInterval now t;
          timeSinceLastActivity = now - lastActivity t1
      in if jsnum_less (Fin timeSinceLastActivity) (t_timeout t1)
         then (t1\<lparr>timeoutTimer := True\<rparr>, None)
         else (timer_destroy t1, Some timeSinceLastActivity))"

definition touch :: "smart_timer \<Rightarrow> fault + smart_timer" where
  "touch t = (if \<not> destroyed t then Inr (t\<lparr>hadActivity := True\<rparr>) else Inl TimerDestroyed)"

text \<open>
  The \<open>_timer\<close> of a stream is either the object \<open>{ touch: NOOP, destroy: NOOP }\<close> or a
  \<open>SmartTimer\<close>.
\<close>

datatype timer_obj = NOOP | Timer smart_timer

definition timer_touch :: "timer_obj \<Rightarrow> fault + timer_obj" where
  "timer_touch tm =
     (case tm of NOOP \<Rightarrow> Inr NOOP
      | Timer t \<Rightarrow> (case touch t of Inl e \<Rightarrow> Inl e | Inr t' \<Rightarrow> Inr (Timer t')))"

definition timer_obj_destroy :: "timer_obj \<Rightarrow> timer_obj" where
  "timer_obj_destroy tm = (case tm of NOOP \<Rightarrow> NOOP | Timer t \<Rightarrow> Timer (timer_destroy t))"

section \<open>The bounded stream (\<open>SmartStream\<close>)\<close>

text \<open>
  The fields of an instance are those the constructor sets (\<open>_timer\<close> is \<open>None\<close> while it
  is \<open>undefined\<close>, \<open>_contentLength\<close> likewise). \<open>_size\<close> starts at \<open>0\<close> and only grows by
  byte lengths, so it is a natural number. A chunk is a buffer, a list of bytes.

  The last four fields are the state the \<open>Transform\<close> base class keeps for the instance:
  whether it is open, flushed (end of input went through \<open>flush\<close>) or destroyed; the
  errors it has emitted as \<open>error\<close> events; the chunks it has pushed to its readable side
  (its \<open>data\<close> events); and whether the callback the constructor hands to \<open>setImmediate\<close>
  is still to run.
\<close>

type_synonym buffer = string

datatype status = Open | Flushed | Destroyed

record smart_stream =
  contentTypeRaw :: prim
  contentType :: string
  contentEncoding :: prim
  contentLength :: "jsnum option"
  size_s :: nat
  limit :: jsnum
  timeout :: jsnum
  interval :: jsnum
  timer :: "timer_obj option"
  status :: status
  errors :: "fault list"
  pushed :: "buffer list"
  pending :: bool

definition byteLength :: "buffer \<Rightarrow> nat" where
  "byteLength chunk = length chunk"

definition isDeserializable :: "smart_stream \<Rightarrow> bool" where
  "isDeserializable s = DESERIALIZABLE_TYPES_test (contentType s)"

definition isCompressed :: "smart_stream \<Rightarrow> bool" where
  "isCompressed s = COMPRESSED_ENCODINGS_test (contentEncoding s)"

text \<open>\<open>toJSON\<close>: the content length is part of the result only when it is positive.\<close>

definition toJSON :: "smart_stream \<Rightarrow> obj" where
  "toJSON s =
     (let ob = [''contentType'' \<mapsto> contentTypeRaw s, ''contentEncoding'' \<mapsto> contentEncoding s]
      in case contentLength s of
           None \<Rightarrow> ob
         | Some n \<Rightarrow> if jsnum_less (Fin 0) n then ob(''contentLength'' \<mapsto> Num n) else ob)"

text \<open>
  The checks at the head of the constructor, in their order; \<open>None\<close> when none of them
  throws.
\<close>

definition construction_fault :: "(string \<Rightarrow> jsnum) \<Rightarrow> obj option \<Rightarrow> fault option" where
  "construction_fault str2num props =
     (case props of
        None \<Rightarrow> Some PropsRequired
      | Some p \<Rightarrow>
          if \<not> CONTENT_TYPES_test (get_prop p ''contentType'')
            then Some (InvalidMimeType (get_prop p ''contentType''))
          else if \<not> CONTENT_ENCODINGS_test (get_prop p ''contentEncoding'')
            then Some (InvalidEncoding (get_prop p ''contentEncoding''))
          else if jsnum_le (to_number str2num (get_prop p ''contentLength'')) (Fin 0)
            then Some (InvalidContentLength (get_prop p ''contentLength''))
          else if \<not> eq_null (get_prop p ''limit'')
                  \<and> (isNaN (to_number str2num (get_prop p ''limit''))
                       \<or> jsnum_le (to_number str2num (get_prop p ''limit'')) (Fin 0))
            then Some (InvalidLimit (get_prop p ''limit''))
          else if jsnum_less (to_number str2num (get_prop p ''timeout''))
                    (to_number str2num (get_prop p ''interval''))
            then Some (TimeoutBelowInterval (get_prop p ''timeout'') (get_prop p ''interval''))
          else None)"

text \<open>The first group of \<open>CONTENT_TYPES.exec(props.contentType)\<close>.\<close>

definition mime_type_of :: "prim \<Rightarrow> string" where
  "mime_type_of v = (case v of Str s \<Rightarrow> (case CONTENT_TYPES_exec s of Some t \<Rightarrow> t | None \<Rightarrow> []) | _ \<Rightarrow> [])"

text \<open>
  The assignments of the constructor after the checks, up to the choice of the timer:
  the instance with no timer yet.
\<close>

definition init_fields :: "(string \<Rightarrow> jsnum) \<Rightarrow> obj \<Rightarrow> smart_stream" where
  "init_fields str2num p =
     (let len = to_number str2num (get_prop p ''contentLength'');
          lim = to_number str2num (get_prop p ''limit'');
          tmo = to_number str2num (get_prop p ''timeout'');
          itv = to_number str2num (get_prop p ''interval'');
          mime = mime_type_of (get_prop p ''contentType'')
      in \<lparr> contentTypeRaw = get_prop p ''contentType'',
           contentType = mime,
           contentEncoding = get_prop p ''contentEncoding'',
           contentLength = (if truthy len then Some len else None),
           size_s = 0,
           limit = (if truthy lim then lim
                    else if DESERIALIZABLE_TYPES_test mime then Fin (1024 * 64)
                    else Fin (1024 * 1024 * 10)),
           timeout = (if jsnum_le (Fin 0) tmo then tmo else Fin 30000),
           interval = (if jsnum_le (Fin 0) itv then itv else Fin 1000),
           timer = None,
           status = Open, errors = [], pushed = [], pending = False \<rparr>)"

text \<open>\<open>+this._contentLength > this._limit\<close>; \<open>+undefined\<close> is \<open>NaN\<close>.\<close>

definition declared_exceeds_limit :: "smart_stream \<Rightarrow> bool" where
  "declared_exceeds_limit s =
     (case contentLength s of None \<Rightarrow> False | Some n \<Rightarrow> jsnum_less (limit s) n)"

text \<open>
  The constructor: \<open>Inl\<close> is the error it throws. When the declared length exceeds the
  limit it schedules the destruction and creates no timer; otherwise the timer is the
  no-op object for a timeout of \<open>0\<close> and a \<open>SmartTimer\<close> (whose constructor may throw)
  for any other.
\<close>

definition SmartStream :: "(string \<Rightarrow> jsnum) \<Rightarrow> rat \<Rightarrow> obj option \<Rightarrow> fault + smart_stream" where
  "SmartStream str2num now props =
     (case construction_fault str2num props of
        Some e \<Rightarrow> Inl e
      | None \<Rightarrow>
          (let s = init_fields str2num (case props of Some p \<Rightarrow> p | None \<Rightarrow> Map.empty)
           in if declared_exceeds_limit s then Inr (s\<lparr>pending := True\<rparr>)
              else if timeout s = Fin 0 then Inr (s\<lparr>timer := Some NOOP\<rparr>)
              else (case new_SmartTimer str2num now
                           (Some [''timeout'' \<mapsto> Num (timeout s), ''interval'' \<mapsto> Num (interval s)]) of
                      Inl e \<Rightarrow> Inl e
                    | Inr t \<Rightarrow> Inr (s\<lparr>timer := Some (Timer t)\<rparr>))))"

subsection \<open>The three callbacks handed to \<open>Transform\<close>\<close>

text \<open>
  \<open>transform\<close>: the outer \<open>Inl\<close> is an exception thrown out of the callback (\<open>touch\<close> on a
  destroyed timer, or \<open>this._timer.touch\<close> while \<open>_timer\<close> is \<open>undefined\<close>); otherwise the
  instance and what was passed to \<open>cb\<close>, an error or the chunk.
\<close>

text \<open>\<open>size > limit\<close> for a byte count and a limit.\<close>

definition exceeds :: "nat \<Rightarrow> jsnum \<Rightarrow> bool" where
  "exceeds n bound = jsnum_less bound (Fin (of_nat n))"

definition TooLarge_of :: "smart_stream \<Rightarrow> fault" where
  "TooLarge_of s = SmartStreamError TooLarge (MetaObj (toJSON s)) None"

definition transform :: "smart_stream \<Rightarrow> buffer \<Rightarrow> fault + (smart_stream \<times> (fault + buffer))" where
  "transform s chunk =
     (let s1 = s\<lparr>size_s := size_s s + byteLength chunk\<rparr>
      in if exceeds (size_s s1) (limit s1) then Inr (s1, Inl (TooLarge_of s1))
         else (case timer s1 of
                 None \<Rightarrow> Inl NotAnObject
               | Some tm \<Rightarrow>
                   (case timer_touch tm of
                      Inl e \<Rightarrow> Inl e
                    | Inr tm' \<Rightarrow> Inr (s1\<lparr>timer := Some tm'\<rparr>, Inr chunk))))"

definition backfill :: "smart_stream \<Rightarrow> smart_stream" where
  "backfill s =
     (if contentLength s = None then s\<lparr>contentLength := Some (Fin (of_nat (size_s s)))\<rparr> else s)"

definition flush :: "smart_stream \<Rightarrow> smart_stream" where
  "flush s = backfill (s\<lparr>timer := map_option timer_obj_destroy (timer s)\<rparr>)"

text \<open>The \<open>destroy\<close> callback returns the instance and the error it passes on.\<close>

definition destroy_cb :: "smart_stream \<Rightarrow> fault option \<Rightarrow> smart_stream \<times> fault option" where
  "destroy_cb s err =
     (backfill (s\<lparr>timer := map_option timer_obj_destroy (timer s)\<rparr>),
      (case err of
         None \<Rightarrow> None
       | Some e \<Rightarrow> Some (if isSmartStreamError e then e else Unexpected_of e)))"

subsection \<open>What \<open>Transform\<close> does with the callbacks\<close>

text \<open>
  The instance is driven by its base class. The contract taken here is the one of a
  stream that destroys itself on error: chunks reach \<open>transform\<close> one at a time, in the
  order written, while the stream is open; a chunk passed to \<open>cb\<close> is pushed to the
  readable side; an error passed to \<open>cb\<close> destroys the stream with that error; the end
  of input runs \<open>flush\<close>; \<open>destroy(err)\<close> runs the \<open>destroy\<close> callback once, emits the
  error it passes on, and does nothing on a stream already destroyed; a destroyed or
  ended stream hands no further chunk to \<open>transform\<close>. The errors the base class
  reports itself for a write after the end are not recorded.
\<close>

definition destroy :: "fault option \<Rightarrow> smart_stream \<Rightarrow> smart_stream" where
  "destroy err s =
     (if status s = Destroyed then s
      else (case destroy_cb s err of
              (s', passed) \<Rightarrow>
                s'\<lparr>status := Destroyed,
                   errors := errors s' @ (case passed of None \<Rightarrow> [] | Some e \<Rightarrow> [e])\<rparr>))"

text \<open>
  What can happen to an instance: a chunk is written, the input ends, \<open>destroy\<close> is
  called from outside, the event loop runs the callbacks of \<open>setImmediate\<close>, or it runs
  one of the two scheduled callbacks of the timer at the clock value given. A scheduled
  callback runs only while its handle is set.
\<close>

datatype event =
    Write buffer
  | End
  | Destroy "fault option"
  | Immediate
  | TimeoutFire rat
  | IntervalFire rat

definition TimedOut_of :: "rat \<Rightarrow> fault" where
  "TimedOut_of duration = SmartStreamError TimedOut (MetaObj [''duration'' \<mapsto> Num (Fin duration)]) None"

text \<open>\<open>step\<close>: \<open>Inl\<close> is an exception that leaves the callback uncaught.\<close>

fun step :: "smart_stream \<Rightarrow> event \<Rightarrow> fault + smart_stream" where
  "step s (Write chunk) =
     (if status s \<noteq> Open then Inr s
      else (case transform s chunk of
              Inl e \<Rightarrow> Inl e
            | Inr (s', Inl err) \<Rightarrow> Inr (destroy (Some err) s')
            | Inr (s', Inr data) \<Rightarrow> Inr (s'\<lparr>pushed := pushed s' @ [data]\<rparr>)))"
| "step s End =
     (if status s \<noteq> Open then Inr s else Inr ((flush s)\<lparr>status := Flushed\<rparr>))"
| "step s (Destroy err) = Inr (destroy err s)"
| "step s Immediate =
     (if pending s then Inr (destroy (Some (TooLarge_of s)) (s\<lparr>pending := False\<rparr>)) else Inr s)"
| "step s (TimeoutFire now) =
     (case timer s of
        Some (Timer t) \<Rightarrow>
          (if timeoutTimer t
           then (case onTimeout now t of
                   (t', None) \<Rightarrow> Inr (s\<lparr>timer := Some (Timer t')\<rparr>)
                 | (t', Some duration) \<Rightarrow>
                     Inr (destroy (Some (TimedOut_of duration)) (s\<lparr>timer := Some (Timer t')\<rparr>)))
           else Inr s)
      | _ \<Rightarrow> Inr s)"
| "step s (IntervalFire now) =
     (case timer s of
        Some (Timer t) \<Rightarrow>
          (if intervalTimer t then Inr (s\<lparr>timer := Some (Timer (onInterval now t))\<rparr>) else Inr s)
      | _ \<Rightarrow> Inr s)"

fun run :: "smart_stream \<Rightarrow> event list \<Rightarrow> fault + smart_stream" where
  "run s [] = Inr s"
| "run s (e # es) = (case step s e of Inl ex \<Rightarrow> Inl ex | Inr s' \<Rightarrow> run s' es)"

subsection \<open>The factories that need no source stream\<close>

definition CREATE_DEFAULTS :: obj where
  "CREATE_DEFAULTS = [''contentType'' \<mapsto> Str ''application/octet-stream'',
                      ''contentEncoding'' \<mapsto> Str ''identity'']"

definition create :: "(string \<Rightarrow> jsnum) \<Rightarrow> rat \<Rightarrow> obj option \<Rightarrow> fault + smart_stream" where
  "create str2num now props = SmartStream str2num now (Some (assign CREATE_DEFAULTS props))"

text \<open>
  \<open>fromBuffer\<close>: \<open>stream.end(buf)\<close> writes the buffer and ends the input.
\<close>

definition fromBuffer :: "(string \<Rightarrow> jsnum) \<Rightarrow> rat \<Rightarrow> buffer \<Rightarrow> obj option \<Rightarrow> fault + smart_stream" where
  "fromBuffer str2num now buf props =
     (case create str2num now
             (Some (assign (assign CREATE_DEFAULTS props)
                      (Some [''contentLength'' \<mapsto> Num (Fin (of_nat (byteLength buf))),
                             ''limit'' \<mapsto> Num (Fin (of_nat (byteLength buf)))]))) of
        Inl e \<Rightarrow> Inl e
      | Inr stream \<Rightarrow> run stream [Write buf, End])"

section \<open>Streams as objects: chaining and transcoding\<close>

text \<open>
  Where a claim depends on which object a call returns, the streams live in a store: a
  list of nodes, a reference being an index. A node is a \<open>SmartStream\<close> instance, one
  of the four \<open>zlib\<close> transforms, a \<open>PassThrough\<close>, or some other readable stream. Each
  node records the streams piped into it and the buffer it was ended with, if any. The
  store keeps what \<open>pipe\<close> connects; the flow of chunks through a connection is what
  \<open>step\<close> describes for one instance. The \<open>error\<close> listeners that \<open>fromStream\<close>
  attaches to both streams are not part of the store.
\<close>

datatype zlib_kind = Deflate | Gzip | Inflate | Gunzip

datatype stream_obj = Smart smart_stream | Zlib zlib_kind | PassThrough | Readable

record node =
  kind :: stream_obj
  sources :: "nat list"
  ended_with :: "buffer option"

type_synonym heap = "node list"

definition alloc :: "heap \<Rightarrow> stream_obj \<Rightarrow> nat \<times> heap" where
  "alloc h k = (length h, h @ [\<lparr>kind = k, sources = [], ended_with = None\<rparr>])"

text \<open>\<open>src.pipe(dest)\<close>, for two streams of the store.\<close>

definition pipe :: "heap \<Rightarrow> nat \<Rightarrow> nat \<Rightarrow> heap" where
  "pipe h src dest =
     (if dest < length h then h[dest := (h ! dest)\<lparr>sources := sources (h ! dest) @ [src]\<rparr>] else h)"

text \<open>\<open>stream.end(buf)\<close> on a stream of the store.\<close>

definition end_with :: "heap \<Rightarrow> nat \<Rightarrow> buffer \<Rightarrow> heap" where
  "end_with h dest buf =
     (if dest < length h then h[dest := (h ! dest)\<lparr>ended_with := Some buf\<rparr>] else h)"

text \<open>\<open>stream instanceof SmartStream\<close>\<close>

definition instanceof_SmartStream :: "heap \<Rightarrow> nat \<Rightarrow> bool" where
  "instanceof_SmartStream h r =
     (r < length h \<and> (case kind (h ! r) of Smart s \<Rightarrow> True | _ \<Rightarrow> False))"

text \<open>The \<open>data\<close> argument of \<open>compress\<close> and \<open>decompress\<close>: a buffer or a stream.\<close>

datatype data = Buf buffer | Ref nat

text \<open>
  The common tail of \<open>compress\<close> and \<open>decompress\<close>: end the new stream with the buffer,
  or pipe the data into it unless the data is the stream itself. Piping from what is
  not a stream of the store throws.
\<close>

definition feed :: "heap \<Rightarrow> data \<Rightarrow> nat \<Rightarrow> fault + (nat \<times> heap)" where
  "feed h d stream =
     (case d of
        Buf b \<Rightarrow> Inr (stream, end_with h stream b)
      | Ref r \<Rightarrow>
          if r \<noteq> stream
          then (if r < length h then Inr (stream, pipe h r stream) else Inl NotAnObject)
          else Inr (stream, h))"

definition compress :: "heap \<Rightarrow> prim \<Rightarrow> data \<Rightarrow> fault + (nat \<times> heap)" where
  "compress h type d =
     (if strict_eq type (Str ''deflate'')
        then (case alloc h (Zlib Deflate) of (stream, h') \<Rightarrow> feed h' d stream)
      else if strict_eq type (Str ''gzip'')
        then (case alloc h (Zlib Gzip) of (stream, h') \<Rightarrow> feed h' d stream)
      else if strict_eq type (Str ''identity'')
        then (case d of
                Buf b \<Rightarrow> (case alloc h PassThrough of (stream, h') \<Rightarrow> feed h' d stream)
              | Ref r \<Rightarrow> feed h d r)
      else Inl (SmartStreamError Unexpected (UnknownCompressionMsg type) None))"

definition decompress :: "heap \<Rightarrow> prim \<Rightarrow> data \<Rightarrow> fault + (nat \<times> heap)" where
  "decompress h type d =
     (if strict_eq type (Str ''deflate'')
        then (case alloc h (Zlib Inflate) of (stream, h') \<Rightarrow> feed h' d stream)
      else if strict_eq type (Str ''gzip'')
        then (case alloc h (Zlib Gunzip) of (stream, h') \<Rightarrow> feed h' d stream)
      else if strict_eq type (Str ''identity'')
        then (case d of
                Buf b \<Rightarrow> (case alloc h PassThrough of (stream, h') \<Rightarrow> feed h' d stream)
              | Ref r \<Rightarrow> feed h d r)
      else Inl (SmartStreamError Unexpected (UnknownCompressionMsg type) None))"

text \<open>
  \<open>fromStream\<close>, with \<open>Ctor = SmartStream\<close>: the new instance is constructed first, then
  the source is piped into it; the result is the new instance (what \<open>pipe\<close> and \<open>once\<close>
  return).
\<close>

definition UNBOUNDED :: obj where
  "UNBOUNDED = [''limit'' \<mapsto> Num PosInf, ''timeout'' \<mapsto> Num (Fin 0), ''interval'' \<mapsto> Num (Fin 0)]"

definition fromStream ::
  "(string \<Rightarrow> jsnum) \<Rightarrow> rat \<Rightarrow> heap \<Rightarrow> nat \<Rightarrow> obj option \<Rightarrow> fault + (nat \<times> heap)" where
  "fromStream str2num now h stream props =
     (let props1 = assign CREATE_DEFAULTS props;
          props2 = (if instanceof_SmartStream h stream then assign props1 (Some UNBOUNDED)
                    else props1)
      in case create str2num now (Some props2) of
           Inl e \<Rightarrow> Inl e
         | Inr smartStream \<Rightarrow>
             if stream < length h
             then (case alloc h (Smart smartStream) of (r, h') \<Rightarrow> Inr (r, pipe h' stream r))
             else Inl NotAnObject)"

text \<open>
  \<open>toContentEncoding\<close>, a method of the instance at \<open>this\<close>. The result is a reference:
  \<open>this\<close> itself, or the instance \<open>fromStream\<close> creates.
\<close>

definition toContentEncoding ::
  "(string \<Rightarrow> jsnum) \<Rightarrow> rat \<Rightarrow> heap \<Rightarrow> nat \<Rightarrow> prim \<Rightarrow> fault + (nat \<times> heap)" where
  "toContentEncoding str2num now h this target =
     (if this < length h
      then (case kind (h ! this) of
              Smart s \<Rightarrow>
                (let source = contentEncoding s in
                 if strict_eq source target then Inr (this, h)
                 else
                   (case (if strict_eq source (Str ''identity'')
                            then compress h target (Ref this)
                          else if strict_eq target (Str ''identity'')
                            then decompress h source (Ref this)
                          else (case decompress h source (Ref this) of
                                  Inl e \<Rightarrow> Inl e
                                | Inr (inflated, h1) \<Rightarrow> compress h1 target (Ref inflated))) of
                      Inl e \<Rightarrow> Inl e
                    | Inr (stream, h') \<Rightarrow>
                        fromStream str2num now h' stream
                          (Some (assign (toJSON s)
                                   (Some [''contentEncoding'' \<mapsto> target,
                                          ''limit'' \<mapsto> Num PosInf,
                                          ''timeout'' \<mapsto> Num (Fin 0),
                                          ''interval'' \<mapsto> Num (Fin 0)])))))
            | _ \<Rightarrow> Inl NotAnObject)
      else Inl NotAnObject)"

section \<open>The serializer\<close>

text \<open>
  The values that are serialized are primitives, arrays and objects. The three codecs are
  libraries outside the repository (\<open>JSON\<close>, \<open>msgpack5\<close>, \<open>querystring\<close>): they are
  parameters, each a partial function that has no result where the library throws (or,
  for \<open>JSON.stringify\<close>, returns \<open>undefined\<close>, on which \<open>Buffer.from\<close> throws). A string
  and the buffer of its bytes are the same list, so that \<open>Buffer.from\<close> and
  \<open>toString('utf8')\<close> are the identity.
\<close>

datatype jsval = Prim prim | Arr "jsval list" | Obj "(string \<times> jsval) list"

record codecs =
  JSON_stringify :: "jsval \<Rightarrow> string option"
  JSON_parse :: "string \<Rightarrow> jsval option"
  msgpack_encode :: "jsval \<Rightarrow> buffer option"
  msgpack_decode :: "buffer \<Rightarrow> jsval option"
  qs_stringify :: "jsval \<Rightarrow> string option"
  qs_parse :: "string \<Rightarrow> jsval option"

definition codec_result :: "'a option \<Rightarrow> fault + 'a" where
  "codec_result r = (case r of None \<Rightarrow> Inl CodecError | Some v \<Rightarrow> Inr v)"

definition serialize :: "codecs \<Rightarrow> string \<Rightarrow> jsval \<Rightarrow> fault + buffer" where
  "serialize cs type d =
     (if type = ''application/json'' then codec_result (JSON_stringify cs d)
      else if type = ''application/msgpack'' then codec_result (msgpack_encode cs d)
      else if type = ''application/x-www-form-urlencoded'' then codec_result (qs_stringify cs d)
      else Inl (SmartStreamError Unexpected (UnknownMimeTypeMsg type) None))"

definition deserialize :: "codecs \<Rightarrow> string \<Rightarrow> buffer \<Rightarrow> fault + jsval" where
  "deserialize cs type d =
     (if type = ''application/json''
        then (case codec_result (JSON_parse cs d) of
                Inl e \<Rightarrow> Inl e
              | Inr val \<Rightarrow> Inr (if val = Prim (Str ''null'') then Prim Null else val))
      else if type = ''application/msgpack'' then codec_result (msgpack_decode cs d)
      else if type = ''application/x-www-form-urlencoded'' then codec_result (qs_parse cs d)
      else Inl (SmartStreamError Unexpected (UnknownMimeTypeMsg type) None))"

text \<open>\<open>deserialize(T, serialize(T, V))\<close>\<close>

definition roundtrip :: "codecs \<Rightarrow> string \<Rightarrow> jsval \<Rightarrow> fault + jsval" where
  "roundtrip cs type v =
     (case serialize cs type v of Inl e \<Rightarrow> Inl e | Inr b \<Rightarrow> deserialize cs type b)"

section \<open>Notions the properties are stated with\<close>

text \<open>The total byte length of a sequence of chunks.\<close>

definition total_bytes :: "buffer list \<Rightarrow> nat" where
  "total_bytes cs = sum_list (map byteLength cs)"

text \<open>
  The timer of an instance is live when it exists and, if it is a \<open>SmartTimer\<close>, has not
  been destroyed: \<open>this._timer.touch()\<close> then returns.
\<close>

definition timer_live :: "smart_stream \<Rightarrow> bool" where
  "timer_live s =
     (case timer s of None \<Rightarrow> False | Some NOOP \<Rightarrow> True | Some (Timer t) \<Rightarrow> \<not> destroyed t)"

definition touched :: "timer_obj \<Rightarrow> timer_obj" where
  "touched tm = (case tm of NOOP \<Rightarrow> NOOP | Timer t \<Rightarrow> Timer (t\<lparr>hadActivity := True\<rparr>))"

text \<open>The instance after the chunks \<open>cs\<close> have all passed through \<open>transform\<close>.\<close>

definition after_writes :: "smart_stream \<Rightarrow> buffer list \<Rightarrow> smart_stream" where
  "after_writes s cs =
     (if cs = [] then s
      else s\<lparr>size_s := size_s s + total_bytes cs,
             timer := map_option touched (timer s),
             pushed := pushed s @ cs\<rparr>)"

text \<open>The instance has no \<open>SmartTimer\<close>: its timer is the no-op object or \<open>undefined\<close>.\<close>

definition no_SmartTimer :: "smart_stream \<Rightarrow> bool" where
  "no_SmartTimer s = (case timer s of Some (Timer t) \<Rightarrow> False | _ \<Rightarrow> True)"

definition isTooLarge :: "fault \<Rightarrow> bool" where
  "isTooLarge e = (case e of SmartStreamError TooLarge m cause \<Rightarrow> True | _ \<Rightarrow> False)"

definition isTimedOut :: "fault \<Rightarrow> bool" where
  "isTimedOut e = (case e of SmartStreamError TimedOut m cause \<Rightarrow> True | _ \<Rightarrow> False)"

text \<open>An event brings a \<open>TimedOut\<close> error from outside when \<open>destroy\<close> is called with one.\<close>

definition brings_TimedOut :: "event \<Rightarrow> bool" where
  "brings_TimedOut ev = (case ev of Destroy (Some e) \<Rightarrow> isTimedOut e | _ \<Rightarrow> False)"

text \<open>The metadata object of an error, empty when it has none.\<close>

definition metadata_of :: "fault \<Rightarrow> obj" where
  "metadata_of e = (case e of SmartStreamError c (MetaObj ob) cause \<Rightarrow> ob | _ \<Rightarrow> Map.empty)"

text \<open>An object carries the byte count \<open>n\<close> when one of its properties holds it.\<close>

definition carries_size :: "obj \<Rightarrow> nat \<Rightarrow> bool" where
  "carries_size ob n = (Num (Fin (of_nat n)) \<in> ran ob)"

text \<open>The three content types the serializer knows.\<close>

definition SUPPORTED_TYPES :: "string list" where
  "SUPPORTED_TYPES =
     [''application/json'', ''application/msgpack'', ''application/x-www-form-urlencoded'']"

text \<open>
  The codec library of a content type takes the value \<open>v\<close> to bytes and back to \<open>v\<close>.
\<close>

definition codec_roundtrips :: "codecs \<Rightarrow> string \<Rightarrow> jsval \<Rightarrow> bool" where
  "codec_roundtrips cs type v =
     (if type = ''application/json''
        then Option.bind (JSON_stringify cs v) (JSON_parse cs) = Some v
      else if type = ''application/msgpack''
        then Option.bind (msgpack_encode cs v) (msgpack_decode cs) = Some v
      else Option.bind (qs_stringify cs v) (qs_parse cs) = Some v)"

text \<open>
  The chain of transforms a change of encoding asks for, in the words of the
  specification: decompress the current encoding when it is not \<open>identity\<close>, then
  compress to the target when that is not \<open>identity\<close>.
\<close>

definition decompressor :: "string \<Rightarrow> zlib_kind" where
  "decompressor enc = (if enc = ''gzip'' then Gunzip else Inflate)"

definition compressor :: "string \<Rightarrow> zlib_kind" where
  "compressor enc = (if enc = ''gzip'' then Gzip else Deflate)"

definition spec_transcoders :: "string \<Rightarrow> string \<Rightarrow> zlib_kind list" where
  "spec_transcoders cur target =
     (if cur \<noteq> ''identity'' then [decompressor cur] else [])
     @ (if target \<noteq> ''identity'' then [compressor target] else [])"

text \<open>
  New streams appended to a store in a row, the first fed by \<open>src\<close> and each next one
  by the one before it; \<open>ix\<close> is the reference of the first.
\<close>

fun piped_chain :: "nat \<Rightarrow> nat \<Rightarrow> stream_obj list \<Rightarrow> node list" where
  "piped_chain src ix [] = []"
| "piped_chain src ix (k # ks) =
     \<lparr>kind = k, sources = [src], ended_with = None\<rparr> # piped_chain ix (Suc ix) ks"

section \<open>Concrete inputs\<close>

text \<open>
  An instance of the codecs for the closed examples: what the three libraries write and
  read on a fragment of the values. \<open>JSON\<close> and MessagePack are given on \<open>null\<close>, the
  booleans and strings of printable ASCII without quote and backslash (MessagePack: of
  at most 31 bytes, the \<open>fixstr\<close> format); the query string is given on objects whose
  keys are distinct words of letters and whose values are strings of letters and digits.
  Outside the fragment the instance has no result; no theorem about the repository's
  code depends on it.
\<close>

definition plain_char :: "char \<Rightarrow> bool" where
  "plain_char c = (let n = (of_char c :: nat) in 32 \<le> n \<and> n \<le> 126 \<and> n \<noteq> 34 \<and> n \<noteq> 92)"

definition letter :: "char \<Rightarrow> bool" where
  "letter c = (let n = (of_char c :: nat) in (65 \<le> n \<and> n \<le> 90) \<or> (97 \<le> n \<and> n \<le> 122))"

definition alnum :: "char \<Rightarrow> bool" where
  "alnum c = (let n = (of_char c :: nat) in (48 \<le> n \<and> n \<le> 57) \<or> letter c)"

definition json_text :: "jsval \<Rightarrow> string option" where
  "json_text v =
     (case v of
        Prim Null \<Rightarrow> Some ''null''
      | Prim (Bool b) \<Rightarrow> Some (if b then ''true'' else ''false'')
      | Prim (Str s) \<Rightarrow> if list_all plain_char s then Some ([CHR 0x22] @ s @ [CHR 0x22]) else None
      | _ \<Rightarrow> None)"

definition json_value :: "string \<Rightarrow> jsval option" where
  "json_value t =
     (if t = ''null'' then Some (Prim Null)
      else if t = ''true'' then Some (Prim (Bool True))
      else if t = ''false'' then Some (Prim (Bool False))
      else (case t of
              [] \<Rightarrow> None
            | c # rest \<Rightarrow>
                if c = CHR 0x22 \<and> rest \<noteq> [] \<and> last rest = CHR 0x22 \<and> list_all plain_char (butlast rest)
                then Some (Prim (Str (butlast rest)))
                else None))"

definition msgpack_bytes :: "jsval \<Rightarrow> buffer option" where
  "msgpack_bytes v =
     (case v of
        Prim Null \<Rightarrow> Some [char_of (192 :: nat)]
      | Prim (Bool b) \<Rightarrow> Some [char_of (if b then 195 else 194 :: nat)]
      | Prim (Str s) \<Rightarrow>
          if list_all plain_char s \<and> length s < 32 then Some (char_of (160 + length s) # s) else None
      | _ \<Rightarrow> None)"

definition msgpack_value :: "buffer \<Rightarrow> jsval option" where
  "msgpack_value b =
     (case b of
        [] \<Rightarrow> None
      | c # rest \<Rightarrow>
          (let n = (of_char c :: nat) in
           if n = 192 \<and> rest = [] then Some (Prim Null)
           else if n = 194 \<and> rest = [] then Some (Prim (Bool False))
           else if n = 195 \<and> rest = [] then Some (Prim (Bool True))
           else if 160 \<le> n \<and> n < 192 \<and> length rest = n - 160 \<and> list_all plain_char rest
             then Some (Prim (Str rest))
           else None))"

fun split_on :: "char \<Rightarrow> string \<Rightarrow> string list" where
  "split_on sep [] = [[]]"
| "split_on sep (c # cs) =
     (if c = sep then [] # split_on sep cs
      else (case split_on sep cs of [] \<Rightarrow> [[c]] | p # ps \<Rightarrow> (c # p) # ps))"

fun join_with :: "char \<Rightarrow> string list \<Rightarrow> string" where
  "join_with sep [] = []"
| "join_with sep [p] = p"
| "join_with sep (p # q # ps) = p @ [sep] @ join_with sep (q # ps)"

definition form_pair :: "string \<times> jsval \<Rightarrow> string option" where
  "form_pair kv =
     (case kv of
        (k, Prim (Str v)) \<Rightarrow>
          if k \<noteq> [] \<and> list_all letter k \<and> list_all alnum v then Some (k @ ''='' @ v) else None
      | _ \<Rightarrow> None)"

definition form_text :: "jsval \<Rightarrow> string option" where
  "form_text v =
     (case v of
        Obj kvs \<Rightarrow>
          (case those (map form_pair kvs) of
             None \<Rightarrow> None
           | Some parts \<Rightarrow>
               if distinct (map fst kvs) then Some (join_with (CHR ''&'') parts) else None)
      | _ \<Rightarrow> None)"

definition form_field :: "string \<Rightarrow> (string \<times> jsval) option" where
  "form_field part =
     (case split_on (CHR ''='') part of
        [k, v] \<Rightarrow> if k \<noteq> [] \<and> list_all letter k \<and> list_all alnum v then Some (k, Prim (Str v)) else None
      | _ \<Rightarrow> None)"

definition form_value :: "string \<Rightarrow> jsval option" where
  "form_value t =
     (if t = [] then Some (Obj [])
      else (case those (map form_field (split_on (CHR ''&'') t)) of
              None \<Rightarrow> None
            | Some kvs \<Rightarrow> if distinct (map fst kvs) then Some (Obj kvs) else None))"

definition fragment_codecs :: codecs where
  "fragment_codecs =
     \<lparr> JSON_stringify = json_text, JSON_parse = json_value,
       msgpack_encode = msgpack_bytes, msgpack_decode = msgpack_value,
       qs_stringify = form_text, qs_parse = form_value \<rparr>"

text \<open>The JSON text of the string \<open>null\<close>: the four letters between double quotes.\<close>

definition quoted_null :: string where
  "quoted_null = [CHR 0x22, CHR ''n'', CHR ''u'', CHR ''l'', CHR ''l'', CHR 0x22]"

text \<open>The props of the repository's tests: JSON, not compressed.\<close>

definition props_json :: obj where
  "props_json =
     [''contentType'' \<mapsto> Str ''application/json'', ''contentEncoding'' \<mapsto> Str ''identity'']"

text \<open>
  Props for a stream of JSON with a limit of ten bytes and no stall detection, and the
  instance the constructor makes of them.
\<close>

definition props_json_10 :: obj where
  "props_json_10 =
     [''contentType'' \<mapsto> Str ''application/json'', ''contentEncoding'' \<mapsto> Str ''identity'',
      ''limit'' \<mapsto> Num (Fin 10), ''timeout'' \<mapsto> Num (Fin 0)]"

definition stream_json_10 :: smart_stream where
  "stream_json_10 =
     \<lparr> contentTypeRaw = Str ''application/json'', contentType = ''application/json'',
       contentEncoding = Str ''identity'', contentLength = None, size_s = 0,
       limit = Fin 10, timeout = Fin 0, interval = Fin 1000, timer = Some NOOP,
       status = Open, errors = [], pushed = [], pending = False \<rparr>"

text \<open>
  That instance after three chunks of four bytes: the third crosses the limit.
\<close>

definition stream_json_10_crossed :: smart_stream where
  "stream_json_10_crossed =
     \<lparr> contentTypeRaw = Str ''application/json'', contentType = ''application/json'',
       contentEncoding = Str ''identity'', contentLength = Some (Fin 12), size_s = 12,
       limit = Fin 10, timeout = Fin 0, interval = Fin 1000, timer = Some NOOP,
       status = Destroyed,
       errors = [SmartStreamError TooLarge
                   (MetaObj [''contentType'' \<mapsto> Str ''application/json'',
                             ''contentEncoding'' \<mapsto> Str ''identity''])
                   None],
       pushed = [''abcd'', ''efgh''], pending = False \<rparr>"

text \<open>
  Props with a timeout of half a second, checked every tenth of a second, and the
  instance made of them at clock value \<open>0\<close>.
\<close>

definition props_json_500 :: obj where
  "props_json_500 =
     [''contentType'' \<mapsto> Str ''application/json'', ''contentEncoding'' \<mapsto> Str ''identity'',
      ''timeout'' \<mapsto> Num (Fin 500), ''interval'' \<mapsto> Num (Fin 100)]"

definition stream_json_500 :: smart_stream where
  "stream_json_500 =
     \<lparr> contentTypeRaw = Str ''application/json'', contentType = ''application/json'',
       contentEncoding = Str ''identity'', contentLength = None, size_s = 0,
       limit = Fin 65536, timeout = Fin 500, interval = Fin 100,
       timer = Some (Timer \<lparr> t_timeout = Fin 500, t_interval = Fin 100,
                              timeoutTimer = True, intervalTimer = True,
                              hadActivity = False, lastActivity = 0, destroyed = False \<rparr>),
       status = Open, errors = [], pushed = [], pending = False \<rparr>"

text \<open>
  A store of two streams: a plain readable stream at \<open>0\<close> and the instance with the
  timeout of half a second at \<open>1\<close>.
\<close>

definition heap_two :: heap where
  "heap_two =
     [\<lparr>kind = Readable, sources = [], ended_with = None\<rparr>,
      \<lparr>kind = Smart stream_json_500, sources = [], ended_with = None\<rparr>]"

text \<open>Props that ask for a limit of five bytes, a timeout of 7 ms and an interval of 3 ms.\<close>

definition props_bounds :: obj where
  "props_bounds = [''limit'' \<mapsto> Num (Fin 5), ''timeout'' \<mapsto> Num (Fin 7), ''interval'' \<mapsto> Num (Fin 3)]"

text \<open>The properties a caller gave: none when \<open>props\<close> is \<open>undefined\<close>.\<close>

definition given :: "obj option \<Rightarrow> obj" where
  "given props = (case props of None \<Rightarrow> Map.empty | Some p \<Rightarrow> p)"

text \<open>The conversion of strings that knows no number: enough where no string is converted.\<close>

definition no_numbers :: "string \<Rightarrow> jsnum" where
  "no_numbers s = NaN"

section \<open>Facts about the numbers, the constructor and a run of writes\<close>

lemma exceeds_mono: "exceeds a bound \<Longrightarrow> exceeds (a + b) bound"
  by (cases bound) (auto simp: exceeds_def)

lemma jsnum_le_not_less: "jsnum_le a b \<Longrightarrow> \<not> jsnum_less b a"
  by (cases a; cases b) auto

lemma within_not_exceeds: "jsnum_le (Fin (of_nat n)) bound \<Longrightarrow> \<not> exceeds n bound"
  by (simp add: exceeds_def jsnum_le_not_less)

lemma touched_idem: "touched (touched tm) = touched tm"
  by (cases tm) (auto simp: touched_def)

lemma new_SmartTimer_live: "new_SmartTimer str2num now props = Inr t \<Longrightarrow> \<not> destroyed t"
  by (auto simp: new_SmartTimer_def Let_def split: if_splits)

lemma init_fields_fresh:
  "status (init_fields str2num p) = Open" "size_s (init_fields str2num p) = 0"
  "errors (init_fields str2num p) = []" "pushed (init_fields str2num p) = []"
  "pending (init_fields str2num p) = False" "timer (init_fields str2num p) = None"
  by (simp_all add: init_fields_def Let_def)

text \<open>The three ways the constructor returns an instance.\<close>

lemma SmartStream_cases:
  assumes "SmartStream str2num now props = Inr s"
  obtains (scheduled) p where "props = Some p" "construction_fault str2num props = None"
      "declared_exceeds_limit (init_fields str2num p)"
      "s = (init_fields str2num p)\<lparr>pending := True\<rparr>"
  | (noop) p where "props = Some p" "construction_fault str2num props = None"
      "\<not> declared_exceeds_limit (init_fields str2num p)"
      "timeout (init_fields str2num p) = Fin 0"
      "s = (init_fields str2num p)\<lparr>timer := Some NOOP\<rparr>"
  | (timed) p t where "props = Some p" "construction_fault str2num props = None"
      "\<not> declared_exceeds_limit (init_fields str2num p)"
      "timeout (init_fields str2num p) \<noteq> Fin 0" "\<not> destroyed t"
      "s = (init_fields str2num p)\<lparr>timer := Some (Timer t)\<rparr>"
proof -
  from assms obtain p where p: "props = Some p"
    by (cases props) (auto simp: SmartStream_def construction_fault_def)
  from assms have nf: "construction_fault str2num props = None"
    by (cases "construction_fault str2num props") (auto simp: SmartStream_def)
  let ?i = "init_fields str2num p"
  show thesis
  proof (cases "declared_exceeds_limit ?i")
    case True
    with assms p nf have "s = ?i\<lparr>pending := True\<rparr>" by (simp add: SmartStream_def Let_def)
    then show thesis using scheduled[OF p nf True] by blast
  next
    case False
    show thesis
    proof (cases "timeout ?i = Fin 0")
      case True
      with assms p nf False have "s = ?i\<lparr>timer := Some NOOP\<rparr>" by (simp add: SmartStream_def Let_def)
      then show thesis using noop[OF p nf False True] by blast
    next
      case nz: False
      with assms p nf False obtain t where
        t: "new_SmartTimer str2num now
              (Some [''timeout'' \<mapsto> Num (timeout ?i), ''interval'' \<mapsto> Num (interval ?i)]) = Inr t"
        and s: "s = ?i\<lparr>timer := Some (Timer t)\<rparr>"
        by (auto simp: SmartStream_def Let_def split: sum.splits)
      from t have "\<not> destroyed t" by (rule new_SmartTimer_live)
      then show thesis using timed[OF p nf False nz _ s] by blast
    qed
  qed
qed

lemma SmartStream_fresh:
  assumes "SmartStream str2num now props = Inr s"
  shows "status s = Open \<and> size_s s = 0 \<and> errors s = [] \<and> pushed s = []
         \<and> pending s = declared_exceeds_limit s
         \<and> (timer s = None) = declared_exceeds_limit s
         \<and> (\<not> declared_exceeds_limit s \<longrightarrow> timer_live s)"
  using assms
  by (cases rule: SmartStream_cases)
     (simp_all add: init_fields_fresh declared_exceeds_limit_def timer_live_def split: option.splits)

lemma transform_within:
  assumes "timer_live s" "\<not> exceeds (size_s s + byteLength c) (limit s)"
  shows "transform s c =
           Inr (s\<lparr>size_s := size_s s + byteLength c, timer := map_option touched (timer s)\<rparr>, Inr c)"
  using assms
  by (auto simp: transform_def timer_live_def timer_touch_def touch_def touched_def Let_def
      split: option.splits timer_obj.splits)

lemma step_write_within:
  assumes "status s = Open" "timer_live s" "\<not> exceeds (size_s s + byteLength c) (limit s)"
  shows "step s (Write c) = Inr (after_writes s [c])"
  using assms by (simp add: transform_within after_writes_def total_bytes_def)

lemma timer_live_after: "timer_live s \<Longrightarrow> timer_live (after_writes s cs)"
  by (auto simp: timer_live_def after_writes_def touched_def split: option.splits timer_obj.splits)

lemma after_writes_Cons: "after_writes (after_writes s [c]) cs = after_writes s (c # cs)"
  by (cases "timer s") (auto simp: after_writes_def total_bytes_def touched_idem)

lemma run_writes_within:
  assumes "status s = Open" "timer_live s" "\<not> exceeds (size_s s + total_bytes cs) (limit s)"
  shows "run s (map Write cs) = Inr (after_writes s cs)"
  using assms
proof (induction cs arbitrary: s)
  case Nil
  then show ?case by (simp add: after_writes_def)
next
  case (Cons c cs)
  have small: "\<not> exceeds (size_s s + byteLength c) (limit s)"
    using Cons.prems(3) exceeds_mono[of "size_s s + byteLength c" "limit s" "total_bytes cs"]
    by (auto simp: total_bytes_def add.assoc)
  let ?s1 = "after_writes s [c]"
  have st: "step s (Write c) = Inr ?s1"
    by (rule step_write_within) (use Cons.prems small in auto)
  have "run ?s1 (map Write cs) = Inr (after_writes ?s1 cs)"
  proof (rule Cons.IH)
    show "status ?s1 = Open" using Cons.prems by (simp add: after_writes_def)
    show "timer_live ?s1" using Cons.prems by (simp add: timer_live_after)
    show "\<not> exceeds (size_s ?s1 + total_bytes cs) (limit ?s1)"
      using Cons.prems(3) by (simp add: after_writes_def total_bytes_def add.assoc)
  qed
  then show ?case using st by (simp add: after_writes_Cons)
qed

lemma run_append:
  "run s (es @ fs) = (case run s es of Inl e \<Rightarrow> Inl e | Inr s' \<Rightarrow> run s' fs)"
  by (induction es arbitrary: s) (auto split: sum.splits)

lemma run_writes_closed: "status s \<noteq> Open \<Longrightarrow> run s (map Write cs) = Inr s"
  by (induction cs) auto

text \<open>Evaluating the definitions on concrete inputs.\<close>

lemmas pattern_defs =
  CONTENT_TYPES_test_def CONTENT_TYPES_exec_def TYPE_NAMES_def starts_with_def subtype_char_def
  word_char_def line_terminator_def CONTENT_ENCODINGS_test_def DESERIALIZABLE_TYPES_test_def
  mime_type_of_def

lemmas constructor_defs =
  SmartStream_def construction_fault_def init_fields_def declared_exceeds_limit_def
  new_SmartTimer_def DEFAULT_PROPS_def get_prop_def assign_def eq_null_def isNaN_def truthy_def
  create_def CREATE_DEFAULTS_def

lemma SmartStream_props_json_10:
  "SmartStream no_numbers 0 (Some props_json_10) = Inr stream_json_10"
  by (simp add: props_json_10_def stream_json_10_def constructor_defs pattern_defs Let_def)

section \<open>Input beyond the limit fails once, at the chunk that crosses it\<close>

lemma toJSON_size [simp]: "toJSON (s\<lparr>size_s := n\<rparr>) = toJSON s"
  by (simp add: toJSON_def)

lemma toJSON_after_writes [simp]: "toJSON (after_writes s cs) = toJSON s"
  by (simp add: after_writes_def toJSON_def)

lemma step_write_exceeds:
  assumes "status s = Open" "exceeds (size_s s + byteLength c) (limit s)"
  shows "step s (Write c) =
           Inr ((backfill (s\<lparr>size_s := size_s s + byteLength c,
                              timer := map_option timer_obj_destroy (timer s)\<rparr>))
                \<lparr>status := Destroyed,
                 errors := errors s @ [SmartStreamError TooLarge (MetaObj (toJSON s)) None]\<rparr>)"
  using assms
  by (simp add: transform_def Let_def destroy_def destroy_cb_def TooLarge_of_def
      isSmartStreamError_def backfill_def)

text \<open>
  What the constructor guarantees of the metadata: both content properties are strings,
  and a declared length is positive.
\<close>

lemma SmartStream_metadata:
  assumes "SmartStream str2num now props = Inr s"
  shows "(\<exists>raw. contentTypeRaw s = Str raw) \<and> (\<exists>enc. contentEncoding s = Str enc)
         \<and> (\<forall>n. contentLength s = Some n \<longrightarrow> jsnum_less (Fin 0) n)"
proof -
  from assms obtain p where p: "props = Some p" and nf: "construction_fault str2num props = None"
    and flds: "contentTypeRaw s = get_prop p ''contentType''"
      "contentEncoding s = get_prop p ''contentEncoding''"
      "contentLength s = (let len = to_number str2num (get_prop p ''contentLength'')
                          in if truthy len then Some len else None)"
    by (cases rule: SmartStream_cases) (simp_all add: init_fields_def Let_def)
  from nf p have ok: "CONTENT_TYPES_test (get_prop p ''contentType'')"
      "CONTENT_ENCODINGS_test (get_prop p ''contentEncoding'')"
      "\<not> jsnum_le (to_number str2num (get_prop p ''contentLength'')) (Fin 0)"
    by (auto simp: construction_fault_def split: if_splits)
  have pos: "jsnum_less (Fin 0) n" if "truthy n" "\<not> jsnum_le n (Fin 0)" for n
    using that by (cases n) (auto simp: truthy_def)
  from ok(1) flds(1) have "\<exists>raw. contentTypeRaw s = Str raw"
    by (cases "get_prop p ''contentType''") (auto simp: CONTENT_TYPES_test_def)
  moreover from ok(2) flds(2) have "\<exists>enc. contentEncoding s = Str enc"
    by (cases "get_prop p ''contentEncoding''") (auto simp: CONTENT_ENCODINGS_test_def)
  moreover from ok(3) flds(3) pos have "\<forall>n. contentLength s = Some n \<longrightarrow> jsnum_less (Fin 0) n"
    by (auto simp: Let_def split: if_splits)
  ultimately show ?thesis by blast
qed

lemma toJSON_lookup:
  assumes "\<forall>n. contentLength s = Some n \<longrightarrow> jsnum_less (Fin 0) n"
  shows "toJSON s ''contentType'' = Some (contentTypeRaw s)"
    and "toJSON s ''contentEncoding'' = Some (contentEncoding s)"
    and "toJSON s ''contentLength'' = map_option Num (contentLength s)"
  using assms by (auto simp: toJSON_def Let_def split: option.splits if_splits)

lemma toJSON_values:
  assumes "v \<in> ran (toJSON s)"
  shows "v = contentTypeRaw s \<or> v = contentEncoding s \<or> (\<exists>n. contentLength s = Some n \<and> v = Num n)"
  using assms by (auto simp: toJSON_def Let_def ran_def split: option.splits if_splits)

text \<open>
  Claim C1, as the code has it. Take an instance the constructor has returned, whose
  declared content length (if any) does not exceed its limit, and chunks whose running
  total of byte lengths first exceeds the limit at chunk \<open>k\<close>. Writing the chunks goes
  without error up to chunk \<open>k\<close>; the whole run emits exactly one error, a \<open>TooLarge\<close>
  error, and destroys the stream; the size stays at the total up to and including chunk
  \<open>k\<close> and only the chunks before \<open>k\<close> have been passed on, so no chunk after \<open>k\<close> is
  processed. The metadata of the error is the result of \<open>toJSON\<close>: the content type as it
  was given, the content encoding, and the content length when one was declared. No
  property of it holds the observed size.
\<close>

theorem too_large_once_at_crossing_chunk:
  assumes made: "SmartStream str2num now props = Inr s"
    and declared: "\<not> declared_exceeds_limit s"
    and k: "k < length cs"
    and before: "\<forall>j<k. \<not> exceeds (total_bytes (take (Suc j) cs)) (limit s)"
    and crossing: "exceeds (total_bytes (take (Suc k) cs)) (limit s)"
  shows "\<exists>sk s'. run s (map Write (take k cs)) = Inr sk \<and> errors sk = [] \<and> status sk = Open
           \<and> run s (map Write cs) = Inr s'
           \<and> errors s' = [SmartStreamError TooLarge (MetaObj (toJSON s)) None]
           \<and> status s' = Destroyed
           \<and> size_s s' = total_bytes (take (Suc k) cs)
           \<and> pushed s' = take k cs
           \<and> toJSON s ''contentType'' = Some (contentTypeRaw s)
           \<and> toJSON s ''contentEncoding'' = Some (contentEncoding s)
           \<and> toJSON s ''contentLength'' = map_option Num (contentLength s)
           \<and> \<not> carries_size (toJSON s) (size_s s')"
proof -
  from SmartStream_fresh[OF made] declared
  have fresh: "status s = Open" "size_s s = 0" "errors s = []" "pushed s = []" "timer_live s"
    by auto
  let ?pre = "take k cs"
  let ?sk = "after_writes s ?pre"
  have pre: "run s (map Write ?pre) = Inr ?sk"
  proof (cases k)
    case 0
    then show ?thesis by (simp add: after_writes_def)
  next
    case (Suc j)
    with before have "\<not> exceeds (total_bytes (take (Suc j) cs)) (limit s)" by simp
    with Suc fresh show ?thesis by (simp add: run_writes_within)
  qed
  have sk: "status ?sk = Open" "errors ?sk = []" "size_s ?sk = total_bytes ?pre"
    "pushed ?sk = ?pre" "limit ?sk = limit s"
    using fresh by (auto simp: after_writes_def total_bytes_def)
  have sum: "total_bytes (take (Suc k) cs) = total_bytes ?pre + byteLength (cs ! k)"
    using k by (simp add: total_bytes_def take_Suc_conv_app_nth)
  let ?s' = "(backfill (?sk\<lparr>size_s := size_s ?sk + byteLength (cs ! k),
                            timer := map_option timer_obj_destroy (timer ?sk)\<rparr>))
             \<lparr>status := Destroyed,
              errors := errors ?sk @ [SmartStreamError TooLarge (MetaObj (toJSON ?sk)) None]\<rparr>"
  have at_k: "step ?sk (Write (cs ! k)) = Inr ?s'"
    by (rule step_write_exceeds) (use sk crossing sum in auto)
  have split: "cs = ?pre @ cs ! k # drop (Suc k) cs"
    using k by (rule id_take_nth_drop)
  have "run s (map Write cs) = run s (map Write ?pre @ Write (cs ! k) # map Write (drop (Suc k) cs))"
    by (subst split) simp
  also have "\<dots> = run ?s' (map Write (drop (Suc k) cs))"
    using pre at_k by (simp add: run_append)
  also have "\<dots> = Inr ?s'"
    by (rule run_writes_closed) simp
  finally have whole: "run s (map Write cs) = Inr ?s'" .
  have size': "size_s ?s' = total_bytes (take (Suc k) cs)"
    using sk(3) sum by (simp add: backfill_def)
  from SmartStream_metadata[OF made] obtain raw enc where
    strs: "contentTypeRaw s = Str raw" "contentEncoding s = Str enc"
    and positive: "\<forall>n. contentLength s = Some n \<longrightarrow> jsnum_less (Fin 0) n"
    by blast
  note look = toJSON_lookup[OF positive]
  have apart: "contentLength s \<noteq> Some (Fin (of_nat (total_bytes (take (Suc k) cs))))"
    using declared crossing by (auto simp: declared_exceeds_limit_def exceeds_def)
  have "\<not> carries_size (toJSON s) (size_s ?s')"
    unfolding carries_size_def size'
    using strs apart by (auto dest: toJSON_values)
  moreover have "errors ?s' = [SmartStreamError TooLarge (MetaObj (toJSON s)) None]"
    using sk(2) by (simp add: backfill_def)
  moreover have "status ?s' = Destroyed" by simp
  moreover have "pushed ?s' = ?pre" using sk(4) by (simp add: backfill_def)
  ultimately show ?thesis
    using pre sk(1,2) whole size' look(1-3) by blast
qed

lemmas callback_defs =
  transform_def flush_def backfill_def destroy_cb_def destroy_def TooLarge_of_def TimedOut_of_def
  toJSON_def exceeds_def byteLength_def timer_touch_def timer_obj_destroy_def touch_def
  timer_destroy_def isSmartStreamError_def Unexpected_of_def

lemma run_stream_json_10_crossed:
  "run stream_json_10 (map Write [''abcd'', ''efgh'', ''ijkl'']) = Inr stream_json_10_crossed"
  by (simp add: stream_json_10_def stream_json_10_crossed_def callback_defs Let_def)

text \<open>
  Claim C1 as stated fails: with a limit of ten bytes, three chunks of four bytes raise
  \<open>TooLarge\<close> at the third chunk with an observed size of twelve, and the metadata of the
  error holds the content type and the content encoding only, not the observed size.
\<close>

theorem too_large_metadata_counterexample:
  "SmartStream no_numbers 0 (Some props_json_10) = Inr stream_json_10
   \<and> run stream_json_10 (map Write [''abcd'', ''efgh'', ''ijkl'']) = Inr stream_json_10_crossed
   \<and> size_s stream_json_10_crossed = 12
   \<and> errors stream_json_10_crossed =
       [SmartStreamError TooLarge
          (MetaObj [''contentType'' \<mapsto> Str ''application/json'',
                    ''contentEncoding'' \<mapsto> Str ''identity''])
          None]
   \<and> \<not> carries_size (metadata_of (hd (errors stream_json_10_crossed)))
          (size_s stream_json_10_crossed)"
proof -
  have "\<not> carries_size (metadata_of (hd (errors stream_json_10_crossed)))
            (size_s stream_json_10_crossed)"
    by (auto simp: carries_size_def metadata_of_def stream_json_10_crossed_def ran_def
        split: if_splits)
  then show ?thesis
    using SmartStream_props_json_10 run_stream_json_10_crossed
    by (simp add: stream_json_10_crossed_def)
qed

text \<open>The amended claim at the same stream and chunks, with \<open>k = 2\<close>.\<close>

theorem too_large_once_at_crossing_chunk_witness:
  "SmartStream no_numbers 0 (Some props_json_10) = Inr stream_json_10
   \<and> \<not> declared_exceeds_limit stream_json_10
   \<and> 2 < length [''abcd'', ''efgh'', ''ijkl'']
   \<and> \<not> exceeds (total_bytes (take (Suc 0) [''abcd'', ''efgh'', ''ijkl''])) (limit stream_json_10)
   \<and> \<not> exceeds (total_bytes (take (Suc 1) [''abcd'', ''efgh'', ''ijkl''])) (limit stream_json_10)
   \<and> exceeds (total_bytes (take (Suc 2) [''abcd'', ''efgh'', ''ijkl''])) (limit stream_json_10)
   \<and> (\<exists>sk s'. run stream_json_10 (map Write (take 2 [''abcd'', ''efgh'', ''ijkl''])) = Inr sk
         \<and> errors sk = [] \<and> status sk = Open
         \<and> run stream_json_10 (map Write [''abcd'', ''efgh'', ''ijkl'']) = Inr s'
         \<and> errors s' = [SmartStreamError TooLarge (MetaObj (toJSON stream_json_10)) None]
         \<and> status s' = Destroyed
         \<and> size_s s' = total_bytes (take (Suc 2) [''abcd'', ''efgh'', ''ijkl''])
         \<and> pushed s' = take 2 [''abcd'', ''efgh'', ''ijkl'']
         \<and> toJSON stream_json_10 ''contentType'' = Some (contentTypeRaw stream_json_10)
         \<and> toJSON stream_json_10 ''contentEncoding'' = Some (contentEncoding stream_json_10)
         \<and> toJSON stream_json_10 ''contentLength'' = map_option Num (contentLength stream_json_10)
         \<and> \<not> carries_size (toJSON stream_json_10) (size_s s'))"
proof -
  have h1: "SmartStream no_numbers 0 (Some props_json_10) = Inr stream_json_10"
    by (rule SmartStream_props_json_10)
  have h2: "\<not> declared_exceeds_limit stream_json_10"
    by (simp add: declared_exceeds_limit_def stream_json_10_def)
  have h3: "2 < length [''abcd'', ''efgh'', ''ijkl'']" by simp
  have h4: "\<forall>j<2. \<not> exceeds (total_bytes (take (Suc j) [''abcd'', ''efgh'', ''ijkl'']))
                       (limit stream_json_10)"
    by (simp add: less_2_cases_iff total_bytes_def byteLength_def exceeds_def stream_json_10_def)
  have h5: "exceeds (total_bytes (take (Suc 2) [''abcd'', ''efgh'', ''ijkl'']))
              (limit stream_json_10)"
    by (simp add: total_bytes_def byteLength_def exceeds_def stream_json_10_def)
  have h4': "\<not> exceeds (total_bytes (take (Suc 0) [''abcd'', ''efgh'', ''ijkl'']))
                 (limit stream_json_10)"
       "\<not> exceeds (total_bytes (take (Suc 1) [''abcd'', ''efgh'', ''ijkl'']))
                 (limit stream_json_10)"
    by (simp_all add: total_bytes_def byteLength_def exceeds_def stream_json_10_def)
  from too_large_once_at_crossing_chunk[OF h1 h2 h3 h4 h5] show ?thesis
    using h1 h2 h3 h4' h5 by blast
qed

section \<open>Input within the limit reaches the flushed state\<close>

text \<open>
  Claim C2. Take an instance the constructor has returned, whose declared content length
  (if any) does not exceed its limit, and chunks whose total byte length is at most the
  limit. Writing the chunks and then ending the input leaves the stream flushed; its size
  is exactly the sum of the byte lengths of the chunks; every chunk has been passed on and
  no error emitted; and the content length is the one given at construction or, when
  none was given, the size.
\<close>

theorem flushed_with_exact_size:
  assumes made: "SmartStream str2num now props = Inr s"
    and declared: "\<not> declared_exceeds_limit s"
    and fits: "jsnum_le (Fin (of_nat (total_bytes cs))) (limit s)"
  shows "\<exists>s'. run s (map Write cs @ [End]) = Inr s'
           \<and> status s' = Flushed
           \<and> size_s s' = total_bytes cs
           \<and> pushed s' = cs
           \<and> errors s' = []
           \<and> contentLength s' =
               (case contentLength s of
                  None \<Rightarrow> Some (Fin (of_nat (total_bytes cs)))
                | Some n \<Rightarrow> Some n)"
proof -
  have empty: "total_bytes [] = 0" by (simp add: total_bytes_def)
  from SmartStream_fresh[OF made] declared
  have fresh: "status s = Open" "size_s s = 0" "errors s = []" "pushed s = []" "timer_live s"
    by auto
  have "\<not> exceeds (size_s s + total_bytes cs) (limit s)"
    using fits fresh(2) by (simp add: within_not_exceeds)
  then have writes: "run s (map Write cs) = Inr (after_writes s cs)"
    using fresh by (simp add: run_writes_within)
  let ?s' = "(flush (after_writes s cs))\<lparr>status := Flushed\<rparr>"
  have "run s (map Write cs @ [End]) = Inr ?s'"
    using writes fresh(1) by (simp add: run_append after_writes_def)
  moreover have "status ?s' = Flushed" by simp
  moreover have "size_s ?s' = total_bytes cs"
    using fresh(2) empty by (auto simp: flush_def backfill_def after_writes_def)
  moreover have "pushed ?s' = cs"
    using fresh(4) by (simp add: flush_def backfill_def after_writes_def)
  moreover have "errors ?s' = []"
    using fresh(3) by (simp add: flush_def backfill_def after_writes_def)
  moreover have "contentLength ?s' =
      (case contentLength s of None \<Rightarrow> Some (Fin (of_nat (total_bytes cs))) | Some n \<Rightarrow> Some n)"
    using fresh(2) empty by (auto simp: flush_def backfill_def after_writes_def split: option.splits)
  ultimately show ?thesis by blast
qed

text \<open>
  The theorem at the stream of JSON with a limit of ten bytes and two chunks of four
  bytes: flushed with size eight, and a content length of eight filled in.
\<close>

theorem flushed_with_exact_size_witness:
  "SmartStream no_numbers 0 (Some props_json_10) = Inr stream_json_10
   \<and> \<not> declared_exceeds_limit stream_json_10
   \<and> jsnum_le (Fin (of_nat (total_bytes [''abcd'', ''efgh'']))) (limit stream_json_10)
   \<and> (\<exists>s'. run stream_json_10 (map Write [''abcd'', ''efgh''] @ [End]) = Inr s'
          \<and> status s' = Flushed \<and> size_s s' = 8 \<and> pushed s' = [''abcd'', ''efgh'']
          \<and> errors s' = [] \<and> contentLength s' = Some (Fin 8))"
proof -
  have h1: "SmartStream no_numbers 0 (Some props_json_10) = Inr stream_json_10"
    by (rule SmartStream_props_json_10)
  have h2: "\<not> declared_exceeds_limit stream_json_10"
    by (simp add: declared_exceeds_limit_def stream_json_10_def)
  have h3: "jsnum_le (Fin (of_nat (total_bytes [''abcd'', ''efgh'']))) (limit stream_json_10)"
    by (simp add: total_bytes_def byteLength_def stream_json_10_def)
  have cl: "contentLength stream_json_10 = None" by (simp add: stream_json_10_def)
  have tb: "total_bytes [''abcd'', ''efgh''] = 8" by (simp add: total_bytes_def byteLength_def)
  from flushed_with_exact_size[OF h1 h2 h3] show ?thesis
    using h1 h2 h3 by (simp add: cl tb)
qed

section \<open>Chaining: \<open>fromStream\<close> does not bound a bounded source again\<close>

lemma fromStream_eq:
  "fromStream str2num now h src props =
     (case create str2num now
             (Some (if instanceof_SmartStream h src
                    then assign (assign CREATE_DEFAULTS props) (Some UNBOUNDED)
                    else assign CREATE_DEFAULTS props)) of
        Inl e \<Rightarrow> Inl e
      | Inr s \<Rightarrow>
          if src < length h
          then Inr (length h, h @ [\<lparr>kind = Smart s, sources = [src], ended_with = None\<rparr>])
          else Inl NotAnObject)"
  by (simp add: fromStream_def alloc_def pipe_def Let_def nth_append split: sum.splits)

lemma map_add_twice: "m ++ (m ++ n) = m ++ n" "m ++ m = m"
  by (rule ext, simp add: map_add_def split: option.splits)+

lemma create_defaults_twice:
  "create str2num now (Some (assign CREATE_DEFAULTS props)) = create str2num now props"
  by (cases props) (simp_all add: create_def assign_def map_add_twice)

lemma not_above_infinity: "\<not> jsnum_less PosInf n"
  by (cases n) simp_all

lemma get_prop_unbounded:
  fixes props :: "obj option"
  defines "q \<equiv> assign CREATE_DEFAULTS (Some (assign (assign CREATE_DEFAULTS props) (Some UNBOUNDED)))"
  shows "get_prop q ''limit'' = Num PosInf" "get_prop q ''timeout'' = Num (Fin 0)"
    "get_prop q ''interval'' = Num (Fin 0)"
  unfolding q_def
  by (simp_all add: assign_def get_prop_def map_add_def UNBOUNDED_def split: option.splits)

lemma get_prop_defaults:
  "k \<noteq> ''contentType'' \<Longrightarrow> k \<noteq> ''contentEncoding'' \<Longrightarrow>
     get_prop (assign CREATE_DEFAULTS props) k = get_prop (given props) k"
  by (cases props) (auto simp: assign_def get_prop_def given_def map_add_def CREATE_DEFAULTS_def
      split: option.splits)

text \<open>An instance made with the three unbounding properties.\<close>

lemma SmartStream_unbounded:
  assumes made: "SmartStream str2num now (Some q) = Inr s"
    and q: "get_prop q ''limit'' = Num PosInf" "get_prop q ''timeout'' = Num (Fin 0)"
      "get_prop q ''interval'' = Num (Fin 0)"
  shows "limit s = PosInf \<and> timeout s = Fin 0 \<and> interval s = Fin 0 \<and> timer s = Some NOOP"
proof -
  let ?i = "init_fields str2num q"
  have i: "limit ?i = PosInf" "timeout ?i = Fin 0" "interval ?i = Fin 0"
    by (simp_all add: init_fields_def Let_def q truthy_def)
  have nd: "\<not> declared_exceeds_limit ?i"
    by (simp add: declared_exceeds_limit_def i not_above_infinity split: option.splits)
  from made show ?thesis
    by (cases rule: SmartStream_cases) (use i nd in auto)
qed

text \<open>The bounding parameters the constructor settles on.\<close>

lemma SmartStream_bounds:
  assumes "SmartStream str2num now (Some q) = Inr s"
  shows "limit s = (let l = to_number str2num (get_prop q ''limit'') in
                    if truthy l then l
                    else if isDeserializable s then Fin 65536 else Fin 10485760)"
    and "timeout s = (let t = to_number str2num (get_prop q ''timeout'') in
                      if jsnum_le (Fin 0) t then t else Fin 30000)"
    and "interval s = (let i = to_number str2num (get_prop q ''interval'') in
                       if jsnum_le (Fin 0) i then i else Fin 1000)"
  using assms
  by (cases rule: SmartStream_cases; simp add: init_fields_def Let_def isDeserializable_def)+

text \<open>
  Claim C3. Let \<open>fromStream\<close> return the reference \<open>r\<close> for the source \<open>src\<close>. Then
  \<open>r\<close> is a new object of the store, a \<open>SmartStream\<close> instance with the source piped into
  it. If the source is itself a \<open>SmartStream\<close>, the instance has the limit \<open>Infinity\<close>, the
  timeout \<open>0\<close>, the interval \<open>0\<close> and the no-op timer, whatever the props say. If it is
  not, the instance is the one \<open>create\<close> makes of the props: its limit is the limit
  given, if that is a number other than \<open>0\<close> and \<open>NaN\<close>, and else the default for its
  content type (64 KiB for a deserializable type, 10 MiB otherwise); its timeout and its
  interval are those given, if not negative, and else 30000 and 1000.
\<close>

theorem fromStream_bounds_once:
  assumes ret: "fromStream str2num now h src props = Inr (r, h')"
  shows "\<exists>s. r = length h \<and> h' = h @ [\<lparr>kind = Smart s, sources = [src], ended_with = None\<rparr>]
           \<and> (instanceof_SmartStream h src \<longrightarrow>
                 limit s = PosInf \<and> timeout s = Fin 0 \<and> interval s = Fin 0 \<and> timer s = Some NOOP)
           \<and> (\<not> instanceof_SmartStream h src \<longrightarrow>
                 create str2num now props = Inr s
                 \<and> limit s = (let l = to_number str2num (get_prop (given props) ''limit'') in
                              if truthy l then l
                              else if isDeserializable s then Fin 65536 else Fin 10485760)
                 \<and> timeout s = (let t = to_number str2num (get_prop (given props) ''timeout'') in
                                if jsnum_le (Fin 0) t then t else Fin 30000)
                 \<and> interval s = (let i = to_number str2num (get_prop (given props) ''interval'') in
                                 if jsnum_le (Fin 0) i then i else Fin 1000))"
proof (cases "instanceof_SmartStream h src")
  case True
  define q where "q = assign CREATE_DEFAULTS (Some (assign (assign CREATE_DEFAULTS props) (Some UNBOUNDED)))"
  from ret True obtain s where made: "SmartStream str2num now (Some q) = Inr s"
    and res: "r = length h" "h' = h @ [\<lparr>kind = Smart s, sources = [src], ended_with = None\<rparr>]"
    unfolding fromStream_eq q_def create_def by (auto split: sum.splits if_splits)
  have "limit s = PosInf \<and> timeout s = Fin 0 \<and> interval s = Fin 0 \<and> timer s = Some NOOP"
    using made unfolding q_def by (rule SmartStream_unbounded) (rule get_prop_unbounded)+
  with res True show ?thesis by blast
next
  case False
  define q where "q = assign CREATE_DEFAULTS props"
  from ret False obtain s where made: "create str2num now props = Inr s"
    and res: "r = length h" "h' = h @ [\<lparr>kind = Smart s, sources = [src], ended_with = None\<rparr>]"
    by (auto simp: fromStream_eq create_defaults_twice split: sum.splits if_splits)
  from made have made': "SmartStream str2num now (Some q) = Inr s"
    by (simp add: create_def q_def)
  have g: "get_prop q ''limit'' = get_prop (given props) ''limit''"
    "get_prop q ''timeout'' = get_prop (given props) ''timeout''"
    "get_prop q ''interval'' = get_prop (given props) ''interval''"
    unfolding q_def by (simp_all add: get_prop_defaults)
  note b = SmartStream_bounds[OF made', unfolded g]
  from b made res False show ?thesis by blast
qed

text \<open>
  The theorem on the store of two streams. From the \<open>SmartStream\<close> at \<open>1\<close>, with props
  that ask for a limit of five bytes, a timeout of 7 ms and an interval of 3 ms: the new
  instance is unbounded. From the plain stream at \<open>0\<close>: with the same props the instance
  has these three values, and with no props the defaults of the tests, 10485760, 30000
  and 1000.
\<close>

theorem fromStream_bounds_once_witness:
  "instanceof_SmartStream heap_two 1
   \<and> (\<exists>s h'. fromStream no_numbers 0 heap_two 1 (Some props_bounds) = Inr (2, h')
         \<and> h' = heap_two @ [\<lparr>kind = Smart s, sources = [1], ended_with = None\<rparr>]
         \<and> limit s = PosInf \<and> timeout s = Fin 0 \<and> interval s = Fin 0 \<and> timer s = Some NOOP)
   \<and> \<not> instanceof_SmartStream heap_two 0
   \<and> (\<exists>s h'. fromStream no_numbers 0 heap_two 0 (Some props_bounds) = Inr (2, h')
         \<and> h' = heap_two @ [\<lparr>kind = Smart s, sources = [0], ended_with = None\<rparr>]
         \<and> limit s = Fin 5 \<and> timeout s = Fin 7 \<and> interval s = Fin 3)
   \<and> (\<exists>s h'. fromStream no_numbers 0 heap_two 0 None = Inr (2, h')
         \<and> h' = heap_two @ [\<lparr>kind = Smart s, sources = [0], ended_with = None\<rparr>]
         \<and> limit s = Fin 10485760 \<and> timeout s = Fin 30000 \<and> interval s = Fin 1000)"
proof -
  have smart: "instanceof_SmartStream heap_two 1" and plain: "\<not> instanceof_SmartStream heap_two 0"
    by (simp_all add: instanceof_SmartStream_def heap_two_def)
  have "\<exists>x. fromStream no_numbers 0 heap_two 1 (Some props_bounds) = Inr x"
    unfolding fromStream_eq using smart
    by (simp add: props_bounds_def UNBOUNDED_def constructor_defs pattern_defs Let_def heap_two_def)
  then obtain r1 h1 where r1: "fromStream no_numbers 0 heap_two 1 (Some props_bounds) = Inr (r1, h1)"
    by auto
  have "\<exists>x. fromStream no_numbers 0 heap_two 0 (Some props_bounds) = Inr x"
    unfolding fromStream_eq using plain
    by (simp add: props_bounds_def constructor_defs pattern_defs Let_def heap_two_def)
  then obtain r2 h2 where r2: "fromStream no_numbers 0 heap_two 0 (Some props_bounds) = Inr (r2, h2)"
    by auto
  have "\<exists>x. fromStream no_numbers 0 heap_two 0 None = Inr x"
    unfolding fromStream_eq using plain
    by (simp add: constructor_defs pattern_defs Let_def heap_two_def)
  then obtain r3 h3 where r3: "fromStream no_numbers 0 heap_two 0 None = Inr (r3, h3)"
    by auto
  have len: "length heap_two = 2" by (simp add: heap_two_def)
  have g: "get_prop (given (Some props_bounds)) ''limit'' = Num (Fin 5)"
    "get_prop (given (Some props_bounds)) ''timeout'' = Num (Fin 7)"
    "get_prop (given (Some props_bounds)) ''interval'' = Num (Fin 3)"
    "get_prop (given None) ''limit'' = Undefined"
    "get_prop (given None) ''timeout'' = Undefined"
    "get_prop (given None) ''interval'' = Undefined"
    by (simp_all add: given_def props_bounds_def get_prop_def)
  from fromStream_bounds_once[OF r1] smart len
  have a: "\<exists>s h'. fromStream no_numbers 0 heap_two 1 (Some props_bounds) = Inr (2, h')
         \<and> h' = heap_two @ [\<lparr>kind = Smart s, sources = [1], ended_with = None\<rparr>]
         \<and> limit s = PosInf \<and> timeout s = Fin 0 \<and> interval s = Fin 0 \<and> timer s = Some NOOP"
    using r1 by auto
  from fromStream_bounds_once[OF r2] plain len
  have b: "\<exists>s h'. fromStream no_numbers 0 heap_two 0 (Some props_bounds) = Inr (2, h')
         \<and> h' = heap_two @ [\<lparr>kind = Smart s, sources = [0], ended_with = None\<rparr>]
         \<and> limit s = Fin 5 \<and> timeout s = Fin 7 \<and> interval s = Fin 3"
    using r2 by (auto simp: g Let_def truthy_def)
  have octet: "\<not> isDeserializable s" if "create no_numbers 0 None = Inr s" for s
    using that
    by (auto simp: isDeserializable_def constructor_defs pattern_defs Let_def split: if_splits)
  from fromStream_bounds_once[OF r3] plain len
  have c: "\<exists>s h'. fromStream no_numbers 0 heap_two 0 None = Inr (2, h')
         \<and> h' = heap_two @ [\<lparr>kind = Smart s, sources = [0], ended_with = None\<rparr>]
         \<and> limit s = Fin 10485760 \<and> timeout s = Fin 30000 \<and> interval s = Fin 1000"
    using r3 octet by (auto simp: g Let_def truthy_def)
  from smart plain a b c show ?thesis by blast
qed

section \<open>Transcoding returns the same instance or a new, unbounded one\<close>

lemma positive_not_le_zero: "jsnum_less (Fin 0) n \<Longrightarrow> \<not> jsnum_le n (Fin 0)"
  by (cases n) auto

lemma get_prop_transcoded:
  fixes s :: smart_stream and target :: prim
  defines "q \<equiv> assign CREATE_DEFAULTS (Some (assign CREATE_DEFAULTS
                 (Some (assign (toJSON s)
                    (Some [''contentEncoding'' \<mapsto> target, ''limit'' \<mapsto> Num PosInf,
                           ''timeout'' \<mapsto> Num (Fin 0), ''interval'' \<mapsto> Num (Fin 0)])))))"
  shows "get_prop q ''contentType'' = contentTypeRaw s"
    and "get_prop q ''contentEncoding'' = target"
    and "get_prop q ''limit'' = Num PosInf"
    and "get_prop q ''timeout'' = Num (Fin 0)"
    and "get_prop q ''interval'' = Num (Fin 0)"
    and "get_prop q ''contentLength'' =
           (case contentLength s of
              None \<Rightarrow> Undefined
            | Some n \<Rightarrow> if jsnum_less (Fin 0) n then Num n else Undefined)"
  unfolding q_def
  by (simp_all add: assign_def get_prop_def map_add_def toJSON_def Let_def CREATE_DEFAULTS_def
      split: option.splits)

text \<open>The instance \<open>toContentEncoding\<close> has \<open>fromStream\<close> construct.\<close>

lemma transcoded_instance:
  fixes s :: smart_stream and target :: prim
  assumes raw: "CONTENT_TYPES_test (contentTypeRaw s)" and enc: "CONTENT_ENCODINGS_test target"
  defines "q \<equiv> assign CREATE_DEFAULTS (Some (assign CREATE_DEFAULTS
                 (Some (assign (toJSON s)
                    (Some [''contentEncoding'' \<mapsto> target, ''limit'' \<mapsto> Num PosInf,
                           ''timeout'' \<mapsto> Num (Fin 0), ''interval'' \<mapsto> Num (Fin 0)])))))"
  shows "SmartStream str2num now (Some q) = Inr ((init_fields str2num q)\<lparr>timer := Some NOOP\<rparr>)"
    and "contentEncoding (init_fields str2num q) = target"
    and "contentTypeRaw (init_fields str2num q) = contentTypeRaw s"
    and "limit (init_fields str2num q) = PosInf"
    and "timeout (init_fields str2num q) = Fin 0"
    and "interval (init_fields str2num q) = Fin 0"
proof -
  note g = get_prop_transcoded[of s target, folded q_def]
  have len: "\<not> jsnum_le (to_number str2num (get_prop q ''contentLength'')) (Fin 0)"
    by (simp add: g positive_not_le_zero split: option.splits)
  have nf: "construction_fault str2num (Some q) = None"
    using raw enc len by (simp add: construction_fault_def g(1-5) eq_null_def isNaN_def)
  show i: "contentEncoding (init_fields str2num q) = target"
    "contentTypeRaw (init_fields str2num q) = contentTypeRaw s"
    "limit (init_fields str2num q) = PosInf"
    "timeout (init_fields str2num q) = Fin 0"
    "interval (init_fields str2num q) = Fin 0"
    by (simp_all add: init_fields_def Let_def g(1-5) truthy_def)
  have "\<not> declared_exceeds_limit (init_fields str2num q)"
    by (simp add: declared_exceeds_limit_def i not_above_infinity split: option.splits)
  with nf i(4) show "SmartStream str2num now (Some q) = Inr ((init_fields str2num q)\<lparr>timer := Some NOOP\<rparr>)"
    by (simp add: SmartStream_def Let_def)
qed

lemma compress_stream:
  assumes "r < length h" "enc = ''gzip'' \<or> enc = ''deflate''"
  shows "compress h (Str enc) (Ref r) =
           Inr (length h, h @ [\<lparr>kind = Zlib (compressor enc), sources = [r], ended_with = None\<rparr>])"
  using assms
  by (auto simp: compress_def strict_eq_def alloc_def feed_def pipe_def compressor_def)

lemma decompress_stream:
  assumes "r < length h" "enc = ''gzip'' \<or> enc = ''deflate''"
  shows "decompress h (Str enc) (Ref r) =
           Inr (length h, h @ [\<lparr>kind = Zlib (decompressor enc), sources = [r], ended_with = None\<rparr>])"
  using assms
  by (auto simp: decompress_def strict_eq_def alloc_def feed_def pipe_def decompressor_def)

lemma fromStream_transcoded:
  fixes s :: smart_stream and target :: prim
  assumes src: "src < length h" "\<not> instanceof_SmartStream h src"
    and raw: "CONTENT_TYPES_test (contentTypeRaw s)" and enc: "CONTENT_ENCODINGS_test target"
  defines "q \<equiv> assign CREATE_DEFAULTS (Some (assign CREATE_DEFAULTS
                 (Some (assign (toJSON s)
                    (Some [''contentEncoding'' \<mapsto> target, ''limit'' \<mapsto> Num PosInf,
                           ''timeout'' \<mapsto> Num (Fin 0), ''interval'' \<mapsto> Num (Fin 0)])))))"
  shows "fromStream str2num now h src
           (Some (assign (toJSON s)
                    (Some [''contentEncoding'' \<mapsto> target, ''limit'' \<mapsto> Num PosInf,
                           ''timeout'' \<mapsto> Num (Fin 0), ''interval'' \<mapsto> Num (Fin 0)])))
         = Inr (length h,
                h @ [\<lparr>kind = Smart ((init_fields str2num q)\<lparr>timer := Some NOOP\<rparr>),
                       sources = [src], ended_with = None\<rparr>])"
proof -
  have "SmartStream str2num now (Some q) = Inr ((init_fields str2num q)\<lparr>timer := Some NOOP\<rparr>)"
    unfolding q_def using raw enc by (rule transcoded_instance(1))
  then show ?thesis
    unfolding fromStream_eq create_def q_def using src by simp
qed

text \<open>
  Claim C4. Let \<open>this\<close> be an instance of the store with a valid content type and a valid
  current encoding, and \<open>x\<close> one of the three encodings. If \<open>x\<close> is the current encoding,
  \<open>toContentEncoding\<close> returns \<open>this\<close> and the store as it was: no new object, no new
  timer. Otherwise it returns a new reference and a store that has grown by the chain the
  specification describes (a decompressor of the current encoding when that is not
  \<open>identity\<close>, then a compressor to \<open>x\<close> when \<open>x\<close> is not \<open>identity\<close>), fed by \<open>this\<close>, and
  at its end the new instance, fed by the last transform: its encoding is \<open>x\<close>, its
  content type that of \<open>this\<close>, its limit \<open>Infinity\<close>, its timeout and interval \<open>0\<close>, its
  timer the no-op object.
\<close>

theorem toContentEncoding_same_or_transcoded:
  assumes here: "this < length h" "kind (h ! this) = Smart s"
    and raw: "CONTENT_TYPES_test (contentTypeRaw s)"
    and cur: "contentEncoding s = Str cur" "CONTENT_ENCODINGS_test (Str cur)"
    and x: "CONTENT_ENCODINGS_test (Str x)"
  shows "(x = cur \<longrightarrow> toContentEncoding str2num now h this (Str x) = Inr (this, h))
       \<and> (x \<noteq> cur \<longrightarrow>
            (\<exists>s'. toContentEncoding str2num now h this (Str x)
                     = Inr (length h + length (spec_transcoders cur x),
                            h @ piped_chain this (length h)
                                  (map Zlib (spec_transcoders cur x) @ [Smart s']))
                 \<and> this < length h + length (spec_transcoders cur x)
                 \<and> contentEncoding s' = Str x \<and> contentTypeRaw s' = contentTypeRaw s
                 \<and> limit s' = PosInf \<and> timeout s' = Fin 0 \<and> interval s' = Fin 0
                 \<and> timer s' = Some NOOP \<and> status s' = Open \<and> size_s s' = 0))"
proof (intro conjI impI)
  assume "x = cur"
  then show "toContentEncoding str2num now h this (Str x) = Inr (this, h)"
    using here cur(1) by (simp add: toContentEncoding_def strict_eq_def)
next
  assume ne: "x \<noteq> cur"
  define q where "q = assign CREATE_DEFAULTS (Some (assign CREATE_DEFAULTS
                 (Some (assign (toJSON s)
                    (Some [''contentEncoding'' \<mapsto> Str x, ''limit'' \<mapsto> Num PosInf,
                           ''timeout'' \<mapsto> Num (Fin 0), ''interval'' \<mapsto> Num (Fin 0)])))))"
  define s' where "s' = (init_fields str2num q)\<lparr>timer := Some NOOP\<rparr>"
  note inst = transcoded_instance[OF raw x, of str2num, folded q_def]
  have props: "contentEncoding s' = Str x \<and> contentTypeRaw s' = contentTypeRaw s
      \<and> limit s' = PosInf \<and> timeout s' = Fin 0 \<and> interval s' = Fin 0
      \<and> timer s' = Some NOOP \<and> status s' = Open \<and> size_s s' = 0"
    unfolding s'_def using inst(2-6) by (simp add: init_fields_fresh)
  have zl: "\<not> instanceof_SmartStream (g @ [\<lparr>kind = Zlib z, sources = srcs, ended_with = None\<rparr>]) (length g)"
    for g z srcs
    by (simp add: instanceof_SmartStream_def)
  note built = fromStream_transcoded[OF _ _ raw x, of _ _ str2num now, folded q_def s'_def]
  from cur(2) x have encs: "cur = ''identity'' \<or> cur = ''gzip'' \<or> cur = ''deflate''"
    "x = ''identity'' \<or> x = ''gzip'' \<or> x = ''deflate''"
    by (simp_all add: CONTENT_ENCODINGS_test_def)
  have call: "toContentEncoding str2num now h this (Str x)
                = Inr (length h + length (spec_transcoders cur x),
                       h @ piped_chain this (length h) (map Zlib (spec_transcoders cur x) @ [Smart s']))"
  proof (cases "cur = ''identity''")
    case True
    with ne encs have xz: "x = ''gzip'' \<or> x = ''deflate''" by auto
    let ?h1 = "h @ [\<lparr>kind = Zlib (compressor x), sources = [this], ended_with = None\<rparr>]"
    have c: "compress h (Str x) (Ref this) = Inr (length h, ?h1)"
      using here(1) xz by (rule compress_stream)
    have f: "fromStream str2num now ?h1 (length h)
               (Some (assign (toJSON s)
                  (Some [''contentEncoding'' \<mapsto> Str x, ''limit'' \<mapsto> Num PosInf,
                         ''timeout'' \<mapsto> Num (Fin 0), ''interval'' \<mapsto> Num (Fin 0)])))
             = Inr (length ?h1, ?h1 @ [\<lparr>kind = Smart s', sources = [length h], ended_with = None\<rparr>])"
      by (rule built) (simp_all add: zl)
    have "spec_transcoders cur x = [compressor x]"
      using True xz by (auto simp: spec_transcoders_def)
    then show ?thesis
      using here cur(1) True ne c f
      by (simp add: toContentEncoding_def strict_eq_def Let_def)
  next
    case curz: False
    with encs have cz: "cur = ''gzip'' \<or> cur = ''deflate''" by auto
    let ?h1 = "h @ [\<lparr>kind = Zlib (decompressor cur), sources = [this], ended_with = None\<rparr>]"
    have d: "decompress h (Str cur) (Ref this) = Inr (length h, ?h1)"
      using here(1) cz by (rule decompress_stream)
    show ?thesis
    proof (cases "x = ''identity''")
      case True
      have f: "fromStream str2num now ?h1 (length h)
                 (Some (assign (toJSON s)
                    (Some [''contentEncoding'' \<mapsto> Str x, ''limit'' \<mapsto> Num PosInf,
                           ''timeout'' \<mapsto> Num (Fin 0), ''interval'' \<mapsto> Num (Fin 0)])))
               = Inr (length ?h1, ?h1 @ [\<lparr>kind = Smart s', sources = [length h], ended_with = None\<rparr>])"
        by (rule built) (simp_all add: zl)
      have "spec_transcoders cur x = [decompressor cur]"
        using True curz by (auto simp: spec_transcoders_def)
      then show ?thesis
        using here cur(1) True curz ne d f
        by (simp add: toContentEncoding_def strict_eq_def Let_def)
    next
      case xz': False
      with encs have xz: "x = ''gzip'' \<or> x = ''deflate''" by auto
      let ?h2 = "?h1 @ [\<lparr>kind = Zlib (compressor x), sources = [length h], ended_with = None\<rparr>]"
      have "length h < length ?h1" by simp
      then have "compress ?h1 (Str x) (Ref (length h)) = Inr (length ?h1, ?h2)"
        using xz by (rule compress_stream)
      then have c: "compress ?h1 (Str x) (Ref (length h)) = Inr (Suc (length h), ?h2)"
        by simp
      have "fromStream str2num now ?h2 (length ?h1)
                 (Some (assign (toJSON s)
                    (Some [''contentEncoding'' \<mapsto> Str x, ''limit'' \<mapsto> Num PosInf,
                           ''timeout'' \<mapsto> Num (Fin 0), ''interval'' \<mapsto> Num (Fin 0)])))
               = Inr (length ?h2, ?h2 @ [\<lparr>kind = Smart s', sources = [length ?h1], ended_with = None\<rparr>])"
      proof (rule built)
        show "length ?h1 < length ?h2" by simp
        show "\<not> instanceof_SmartStream ?h2 (length ?h1)" by (rule zl)
      qed
      then have f: "fromStream str2num now ?h2 (Suc (length h))
                 (Some (assign (toJSON s)
                    (Some [''contentEncoding'' \<mapsto> Str x, ''limit'' \<mapsto> Num PosInf,
                           ''timeout'' \<mapsto> Num (Fin 0), ''interval'' \<mapsto> Num (Fin 0)])))
               = Inr (Suc (Suc (length h)),
                      ?h2 @ [\<lparr>kind = Smart s', sources = [Suc (length h)], ended_with = None\<rparr>])"
        by simp
      have "spec_transcoders cur x = [decompressor cur, compressor x]"
        using xz' curz by (auto simp: spec_transcoders_def)
      then show ?thesis
        using here cur(1) xz' curz ne d c f
        by (simp add: toContentEncoding_def strict_eq_def Let_def)
    qed
  qed
  have "this < length h + length (spec_transcoders cur x)" using here(1) by simp
  with call props
  show "\<exists>s'. toContentEncoding str2num now h this (Str x)
                     = Inr (length h + length (spec_transcoders cur x),
                            h @ piped_chain this (length h)
                                  (map Zlib (spec_transcoders cur x) @ [Smart s']))
                 \<and> this < length h + length (spec_transcoders cur x)
                 \<and> contentEncoding s' = Str x \<and> contentTypeRaw s' = contentTypeRaw s
                 \<and> limit s' = PosInf \<and> timeout s' = Fin 0 \<and> interval s' = Fin 0
                 \<and> timer s' = Some NOOP \<and> status s' = Open \<and> size_s s' = 0"
    by blast
qed

text \<open>
  The theorem on the store of two streams, for the instance at \<open>1\<close>, whose encoding is
  \<open>identity\<close>: to \<open>identity\<close> it is returned itself; to \<open>gzip\<close> the store grows by a
  \<open>Gzip\<close> transform fed by \<open>1\<close> and a new, unbounded instance fed by the transform. And
  for an instance encoded with \<open>gzip\<close>, alone in its store: to \<open>deflate\<close> the store
  grows by a \<open>Gunzip\<close>, a \<open>Deflate\<close> and the new instance.
\<close>

theorem toContentEncoding_same_or_transcoded_witness:
  "1 < length heap_two \<and> kind (heap_two ! 1) = Smart stream_json_500
   \<and> CONTENT_TYPES_test (contentTypeRaw stream_json_500)
   \<and> contentEncoding stream_json_500 = Str ''identity''
   \<and> CONTENT_ENCODINGS_test (Str ''identity'') \<and> CONTENT_ENCODINGS_test (Str ''gzip'')
   \<and> CONTENT_ENCODINGS_test (Str ''deflate'')
   \<and> toContentEncoding no_numbers 0 heap_two 1 (Str ''identity'') = Inr (1, heap_two)
   \<and> (\<exists>s'. toContentEncoding no_numbers 0 heap_two 1 (Str ''gzip'')
               = Inr (3, heap_two @ [\<lparr>kind = Zlib Gzip, sources = [1], ended_with = None\<rparr>,
                                     \<lparr>kind = Smart s', sources = [2], ended_with = None\<rparr>])
          \<and> contentEncoding s' = Str ''gzip'' \<and> limit s' = PosInf \<and> timeout s' = Fin 0
          \<and> interval s' = Fin 0 \<and> timer s' = Some NOOP)
   \<and> (\<exists>s'. toContentEncoding no_numbers 0
                 [\<lparr>kind = Smart (stream_json_500\<lparr>contentEncoding := Str ''gzip''\<rparr>),
                   sources = [], ended_with = None\<rparr>] 0 (Str ''deflate'')
               = Inr (3, [\<lparr>kind = Smart (stream_json_500\<lparr>contentEncoding := Str ''gzip''\<rparr>),
                           sources = [], ended_with = None\<rparr>,
                          \<lparr>kind = Zlib Gunzip, sources = [0], ended_with = None\<rparr>,
                          \<lparr>kind = Zlib Deflate, sources = [1], ended_with = None\<rparr>,
                          \<lparr>kind = Smart s', sources = [2], ended_with = None\<rparr>])
          \<and> contentEncoding s' = Str ''deflate'' \<and> limit s' = PosInf \<and> timeout s' = Fin 0
          \<and> interval s' = Fin 0 \<and> timer s' = Some NOOP)"
proof -
  let ?g = "stream_json_500\<lparr>contentEncoding := Str ''gzip''\<rparr>"
  let ?h = "[\<lparr>kind = Smart ?g, sources = [], ended_with = None\<rparr>]"
  have h1: "1 < length heap_two" "kind (heap_two ! 1) = Smart stream_json_500"
    by (simp_all add: heap_two_def)
  have h2: "CONTENT_TYPES_test (contentTypeRaw stream_json_500)"
    by (simp add: stream_json_500_def pattern_defs Let_def)
  have h3: "contentEncoding stream_json_500 = Str ''identity''"
    by (simp add: stream_json_500_def)
  have e: "CONTENT_ENCODINGS_test (Str ''identity'')" "CONTENT_ENCODINGS_test (Str ''gzip'')"
    "CONTENT_ENCODINGS_test (Str ''deflate'')"
    by (simp_all add: CONTENT_ENCODINGS_test_def)
  have g1: "0 < length ?h" "kind (?h ! 0) = Smart ?g" by simp_all
  have g2: "CONTENT_TYPES_test (contentTypeRaw ?g)"
    by (simp add: stream_json_500_def pattern_defs Let_def)
  have g3: "contentEncoding ?g = Str ''gzip''" by simp
  have len: "length heap_two = 2" by (simp add: heap_two_def)
  have tr: "spec_transcoders ''identity'' ''gzip'' = [Gzip]"
    "spec_transcoders ''gzip'' ''deflate'' = [Gunzip, Deflate]"
    by (simp_all add: spec_transcoders_def compressor_def decompressor_def)
  from toContentEncoding_same_or_transcoded[OF h1 h2 h3 e(1) e(1), of no_numbers 0]
  have a: "toContentEncoding no_numbers 0 heap_two 1 (Str ''identity'') = Inr (1, heap_two)"
    by simp
  from toContentEncoding_same_or_transcoded[OF h1 h2 h3 e(1) e(2), of no_numbers 0]
  have b: "\<exists>s'. toContentEncoding no_numbers 0 heap_two 1 (Str ''gzip'')
               = Inr (3, heap_two @ [\<lparr>kind = Zlib Gzip, sources = [1], ended_with = None\<rparr>,
                                     \<lparr>kind = Smart s', sources = [2], ended_with = None\<rparr>])
          \<and> contentEncoding s' = Str ''gzip'' \<and> limit s' = PosInf \<and> timeout s' = Fin 0
          \<and> interval s' = Fin 0 \<and> timer s' = Some NOOP"
    by (auto simp: tr len)
  from toContentEncoding_same_or_transcoded[OF g1 g2 g3 e(2) e(3), of no_numbers 0]
  have c: "\<exists>s'. toContentEncoding no_numbers 0 ?h 0 (Str ''deflate'')
               = Inr (3, [\<lparr>kind = Smart ?g, sources = [], ended_with = None\<rparr>,
                          \<lparr>kind = Zlib Gunzip, sources = [0], ended_with = None\<rparr>,
                          \<lparr>kind = Zlib Deflate, sources = [1], ended_with = None\<rparr>,
                          \<lparr>kind = Smart s', sources = [2], ended_with = None\<rparr>])
          \<and> contentEncoding s' = Str ''deflate'' \<and> limit s' = PosInf \<and> timeout s' = Fin 0
          \<and> interval s' = Fin 0 \<and> timer s' = Some NOOP"
    by (auto simp: tr)
  from h1 h2 h3 e a b c show ?thesis by blast
qed

section \<open>A declared length beyond the limit\<close>

text \<open>
  An instance without a timer never passes a chunk on: \<open>transform\<close> either reports
  \<open>TooLarge\<close> or throws at \<open>this._timer.touch()\<close>.
\<close>

lemma transform_no_timer:
  assumes "timer s = None" "transform s c = Inr (s', r)"
  shows "\<exists>err. r = Inl err \<and> timer s' = None \<and> pushed s' = pushed s"
  using assms by (auto simp: transform_def Let_def split: if_splits)

lemma destroy_keeps:
  "pushed (destroy err s) = pushed s"
  "timer s = None \<Longrightarrow> timer (destroy err s) = None"
  by (auto simp: destroy_def destroy_cb_def backfill_def)

lemma step_no_timer:
  assumes "timer s = None" "step s ev = Inr s'"
  shows "timer s' = None \<and> pushed s' = pushed s"
proof (cases ev)
  case (Write c)
  show ?thesis
  proof (cases "status s = Open")
    case True
    with assms Write obtain s1 r where t: "transform s c = Inr (s1, r)"
      by (cases "transform s c") (auto split: prod.splits)
    from transform_no_timer[OF assms(1) t] obtain err where
      r: "r = Inl err" "timer s1 = None" "pushed s1 = pushed s" by blast
    with assms Write True t have "s' = destroy (Some err) s1" by simp
    with r show ?thesis by (simp add: destroy_keeps)
  next
    case False
    with assms Write show ?thesis by simp
  qed
next
  case End
  with assms show ?thesis by (auto simp: flush_def backfill_def split: if_splits)
next
  case (Destroy err)
  with assms show ?thesis by (auto simp: destroy_keeps)
next
  case Immediate
  with assms show ?thesis by (auto simp: destroy_keeps split: if_splits)
next
  case (TimeoutFire t)
  with assms show ?thesis by auto
next
  case (IntervalFire t)
  with assms show ?thesis by auto
qed

lemma run_no_timer:
  assumes "timer s = None" "run s es = Inr s'"
  shows "timer s' = None \<and> pushed s' = pushed s"
  using assms
proof (induction es arbitrary: s)
  case Nil
  then show ?case by simp
next
  case (Cons ev es)
  from Cons.prems(2) obtain s1 where s1: "step s ev = Inr s1" and rest: "run s1 es = Inr s'"
    by (cases "step s ev") auto
  from step_no_timer[OF Cons.prems(1) s1] have "timer s1 = None" "pushed s1 = pushed s" by auto
  with Cons.IH[OF _ rest] show ?case by simp
qed

text \<open>
  Claim C5. When none of the checks of the constructor fails and the declared content
  length exceeds the limit the constructor settles on, the constructor returns an
  instance: open, with no error yet, no timer, and its destruction scheduled. When the
  event loop runs the scheduled callback, the stream is destroyed with exactly one
  error, \<open>TooLarge\<close> with the metadata of \<open>toJSON\<close>, and has passed no chunk on. And
  whatever happens to the instance, before or after, it never passes a chunk on.
\<close>

theorem declared_length_beyond_limit:
  assumes valid: "construction_fault str2num (Some p) = None"
    and beyond: "declared_exceeds_limit (init_fields str2num p)"
  shows "\<exists>s. SmartStream str2num now (Some p) = Inr s
           \<and> status s = Open \<and> errors s = [] \<and> pushed s = [] \<and> pending s \<and> timer s = None
           \<and> (\<exists>s'. step s Immediate = Inr s' \<and> status s' = Destroyed
                  \<and> errors s' = [SmartStreamError TooLarge (MetaObj (toJSON s)) None]
                  \<and> pushed s' = [])
           \<and> (\<forall>es s''. run s es = Inr s'' \<longrightarrow> pushed s'' = [])"
proof -
  let ?s = "(init_fields str2num p)\<lparr>pending := True\<rparr>"
  have made: "SmartStream str2num now (Some p) = Inr ?s"
    using valid beyond by (simp add: SmartStream_def Let_def)
  have fresh: "status ?s = Open" "errors ?s = []" "pushed ?s = []" "pending ?s" "timer ?s = None"
    by (simp_all add: init_fields_fresh)
  let ?s' = "destroy (Some (TooLarge_of ?s)) (?s\<lparr>pending := False\<rparr>)"
  have tick: "step ?s Immediate = Inr ?s'" by simp
  have "status ?s' = Destroyed"
    using fresh(1) by (simp add: destroy_def destroy_cb_def)
  moreover have "errors ?s' = [SmartStreamError TooLarge (MetaObj (toJSON ?s)) None]"
    using fresh(1,2)
    by (simp add: destroy_def destroy_cb_def TooLarge_of_def isSmartStreamError_def backfill_def)
  moreover have "pushed ?s' = []"
    using fresh(3) by (simp add: destroy_keeps)
  moreover have "\<forall>es s''. run ?s es = Inr s'' \<longrightarrow> pushed s'' = []"
    using run_no_timer[OF fresh(5)] fresh(3) by auto
  ultimately show ?thesis
    using made fresh tick by blast
qed

text \<open>
  The theorem at the props of the tests with a declared length of twenty bytes and a
  limit of ten.
\<close>

theorem declared_length_beyond_limit_witness:
  "construction_fault no_numbers
      (Some (props_json(''contentLength'' \<mapsto> Num (Fin 20), ''limit'' \<mapsto> Num (Fin 10)))) = None
   \<and> declared_exceeds_limit
        (init_fields no_numbers (props_json(''contentLength'' \<mapsto> Num (Fin 20), ''limit'' \<mapsto> Num (Fin 10))))
   \<and> (\<exists>s. SmartStream no_numbers 0
              (Some (props_json(''contentLength'' \<mapsto> Num (Fin 20), ''limit'' \<mapsto> Num (Fin 10)))) = Inr s
         \<and> status s = Open \<and> errors s = [] \<and> pushed s = [] \<and> pending s \<and> timer s = None
         \<and> (\<exists>s'. step s Immediate = Inr s' \<and> status s' = Destroyed
                \<and> errors s' = [SmartStreamError TooLarge (MetaObj (toJSON s)) None]
                \<and> pushed s' = [])
         \<and> (\<forall>es s''. run s es = Inr s'' \<longrightarrow> pushed s'' = []))"
proof -
  let ?p = "props_json(''contentLength'' \<mapsto> Num (Fin 20), ''limit'' \<mapsto> Num (Fin 10))"
  have h1: "construction_fault no_numbers (Some ?p) = None"
    by (simp add: construction_fault_def props_json_def get_prop_def pattern_defs eq_null_def
        isNaN_def Let_def)
  have h2: "declared_exceeds_limit (init_fields no_numbers ?p)"
    by (simp add: declared_exceeds_limit_def init_fields_def props_json_def get_prop_def
        truthy_def Let_def)
  from declared_length_beyond_limit[OF h1 h2, of 0] show ?thesis
    using h1 h2 by blast
qed

section \<open>The serializer: round trips and the string \<open>null\<close>\<close>

lemma bind_Some: "Option.bind a f = Some v \<Longrightarrow> \<exists>b. a = Some b \<and> f b = Some v"
  by (cases a) auto

lemma fragment_json_null_string:
  "JSON_stringify fragment_codecs (Prim (Str ''null'')) = Some quoted_null"
  "JSON_parse fragment_codecs quoted_null = Some (Prim (Str ''null''))"
  by (simp_all add: fragment_codecs_def json_text_def json_value_def plain_char_def quoted_null_def)

text \<open>
  Claim C6, as the code has it. For each of the three content types and every value
  that the codec library of the type takes to bytes and back to itself, serializing and
  then deserializing gives the value back, except for the string \<open>null\<close> under
  \<open>application/json\<close>.
\<close>

theorem roundtrip_where_codec_roundtrips:
  assumes supported: "type \<in> set SUPPORTED_TYPES"
    and codec: "codec_roundtrips cs type v"
    and not_null: "type = ''application/json'' \<longrightarrow> v \<noteq> Prim (Str ''null'')"
  shows "roundtrip cs type v = Inr v"
proof -
  from supported consider (json) "type = ''application/json''"
    | (msgpack) "type = ''application/msgpack''"
    | (form) "type = ''application/x-www-form-urlencoded''"
    by (auto simp: SUPPORTED_TYPES_def)
  then show ?thesis
  proof cases
    case json
    with codec obtain b where "JSON_stringify cs v = Some b" "JSON_parse cs b = Some v"
      by (auto simp: codec_roundtrips_def dest: bind_Some)
    with json not_null show ?thesis
      by (simp add: roundtrip_def serialize_def deserialize_def codec_result_def)
  next
    case msgpack
    with codec obtain b where "msgpack_encode cs v = Some b" "msgpack_decode cs b = Some v"
      by (auto simp: codec_roundtrips_def dest: bind_Some)
    with msgpack show ?thesis
      by (simp add: roundtrip_def serialize_def deserialize_def codec_result_def)
  next
    case form
    with codec obtain b where "qs_stringify cs v = Some b" "qs_parse cs b = Some v"
      by (auto simp: codec_roundtrips_def dest: bind_Some)
    with form show ?thesis
      by (simp add: roundtrip_def serialize_def deserialize_def codec_result_def)
  qed
qed

text \<open>
  Claim C6 as stated fails at the string \<open>null\<close> under \<open>application/json\<close>: the JSON text
  of the string is the string in quotes, which parses back to the string, and
  \<open>deserialize\<close> then returns the value \<open>null\<close>.
\<close>

theorem roundtrip_null_string_counterexample:
  "serialize fragment_codecs ''application/json'' (Prim (Str ''null''))
     = Inr quoted_null
   \<and> JSON_parse fragment_codecs quoted_null = Some (Prim (Str ''null''))
   \<and> roundtrip fragment_codecs ''application/json'' (Prim (Str ''null'')) = Inr (Prim Null)
   \<and> roundtrip fragment_codecs ''application/json'' (Prim (Str ''null''))
       \<noteq> Inr (Prim (Str ''null''))"
  by (simp add: roundtrip_def serialize_def deserialize_def codec_result_def
      fragment_json_null_string)

text \<open>
  The amended claim at one value for each content type: the string \<open>bar\<close> as JSON and
  as MessagePack, and the object of the repository's tests as form data.
\<close>

theorem roundtrip_where_codec_roundtrips_witness:
  "''application/json'' \<in> set SUPPORTED_TYPES
   \<and> codec_roundtrips fragment_codecs ''application/json'' (Prim (Str ''bar''))
   \<and> Prim (Str ''bar'') \<noteq> Prim (Str ''null'')
   \<and> roundtrip fragment_codecs ''application/json'' (Prim (Str ''bar'')) = Inr (Prim (Str ''bar''))
   \<and> ''application/msgpack'' \<in> set SUPPORTED_TYPES
   \<and> codec_roundtrips fragment_codecs ''application/msgpack'' (Prim (Str ''bar''))
   \<and> ''application/msgpack'' \<noteq> ''application/json''
   \<and> roundtrip fragment_codecs ''application/msgpack'' (Prim (Str ''bar'')) = Inr (Prim (Str ''bar''))
   \<and> ''application/x-www-form-urlencoded'' \<in> set SUPPORTED_TYPES
   \<and> codec_roundtrips fragment_codecs ''application/x-www-form-urlencoded''
        (Obj [(''foo'', Prim (Str ''bar'')), (''bar'', Prim (Str ''baz''))])
   \<and> ''application/x-www-form-urlencoded'' \<noteq> ''application/json''
   \<and> roundtrip fragment_codecs ''application/x-www-form-urlencoded''
        (Obj [(''foo'', Prim (Str ''bar'')), (''bar'', Prim (Str ''baz''))])
      = Inr (Obj [(''foo'', Prim (Str ''bar'')), (''bar'', Prim (Str ''baz''))])"
proof -
  let ?ob = "Obj [(''foo'', Prim (Str ''bar'')), (''bar'', Prim (Str ''baz''))]"
  have t: "''application/json'' \<in> set SUPPORTED_TYPES" "''application/msgpack'' \<in> set SUPPORTED_TYPES"
    "''application/x-www-form-urlencoded'' \<in> set SUPPORTED_TYPES"
    by (simp_all add: SUPPORTED_TYPES_def)
  have j: "codec_roundtrips fragment_codecs ''application/json'' (Prim (Str ''bar''))"
    by (simp add: codec_roundtrips_def fragment_codecs_def json_text_def json_value_def plain_char_def)
  have m: "codec_roundtrips fragment_codecs ''application/msgpack'' (Prim (Str ''bar''))"
    by (simp add: codec_roundtrips_def fragment_codecs_def msgpack_bytes_def msgpack_value_def
        plain_char_def Let_def)
  have f: "codec_roundtrips fragment_codecs ''application/x-www-form-urlencoded'' ?ob"
    by (simp add: codec_roundtrips_def fragment_codecs_def form_text_def form_value_def
        form_pair_def form_field_def letter_def alnum_def Let_def)
  have n: "Prim (Str ''bar'') \<noteq> Prim (Str ''null'')" "''application/msgpack'' \<noteq> ''application/json''"
    "''application/x-www-form-urlencoded'' \<noteq> ''application/json''"
    by simp_all
  have rj: "roundtrip fragment_codecs ''application/json'' (Prim (Str ''bar'')) = Inr (Prim (Str ''bar''))"
    using roundtrip_where_codec_roundtrips[OF t(1) j] n(1) by blast
  have rm: "roundtrip fragment_codecs ''application/msgpack'' (Prim (Str ''bar'')) = Inr (Prim (Str ''bar''))"
    using roundtrip_where_codec_roundtrips[OF t(2) m] n(2) by blast
  have rf: "roundtrip fragment_codecs ''application/x-www-form-urlencoded'' ?ob = Inr ?ob"
    using roundtrip_where_codec_roundtrips[OF t(3) f] n(3) by blast
  from t j m f n rj rm rf show ?thesis by blast
qed

text \<open>
  Claim C10. Under \<open>application/json\<close>, \<open>deserialize\<close> returns the value \<open>null\<close> whenever
  what \<open>JSON.parse\<close> gives is the string \<open>null\<close>. So, \<open>JSON\<close> taking the string \<open>null\<close>
  to its text and back, serializing and then deserializing that string returns the
  value \<open>null\<close> and not the string.
\<close>

theorem json_null_string_becomes_null:
  "(JSON_parse cs d = Some (Prim (Str ''null''))
      \<longrightarrow> deserialize cs ''application/json'' d = Inr (Prim Null))
   \<and> (codec_roundtrips cs ''application/json'' (Prim (Str ''null''))
      \<longrightarrow> roundtrip cs ''application/json'' (Prim (Str ''null'')) = Inr (Prim Null)
          \<and> roundtrip cs ''application/json'' (Prim (Str ''null'')) \<noteq> Inr (Prim (Str ''null'')))"
proof (intro conjI impI)
  assume "JSON_parse cs d = Some (Prim (Str ''null''))"
  then show "deserialize cs ''application/json'' d = Inr (Prim Null)"
    by (simp add: deserialize_def codec_result_def)
next
  assume "codec_roundtrips cs ''application/json'' (Prim (Str ''null''))"
  then obtain b where b: "JSON_stringify cs (Prim (Str ''null'')) = Some b"
      "JSON_parse cs b = Some (Prim (Str ''null''))"
    by (auto simp: codec_roundtrips_def dest: bind_Some)
  then show r: "roundtrip cs ''application/json'' (Prim (Str ''null'')) = Inr (Prim Null)"
    by (simp add: roundtrip_def serialize_def deserialize_def codec_result_def)
  then show "roundtrip cs ''application/json'' (Prim (Str ''null'')) \<noteq> Inr (Prim (Str ''null''))"
    by simp
qed

text \<open>The theorem at the JSON of the fragment and the text of the string \<open>null\<close>.\<close>

theorem json_null_string_becomes_null_witness:
  "JSON_parse fragment_codecs quoted_null = Some (Prim (Str ''null''))
   \<and> deserialize fragment_codecs ''application/json'' quoted_null = Inr (Prim Null)
   \<and> codec_roundtrips fragment_codecs ''application/json'' (Prim (Str ''null''))
   \<and> roundtrip fragment_codecs ''application/json'' (Prim (Str ''null'')) = Inr (Prim Null)"
proof -
  have p: "JSON_parse fragment_codecs quoted_null = Some (Prim (Str ''null''))"
    by (rule fragment_json_null_string)
  have c: "codec_roundtrips fragment_codecs ''application/json'' (Prim (Str ''null''))"
    by (simp add: codec_roundtrips_def fragment_json_null_string)
  note inst = json_null_string_becomes_null[of fragment_codecs quoted_null]
  from inst p have d: "deserialize fragment_codecs ''application/json'' quoted_null
      = Inr (Prim Null)" by blast
  from inst c have r: "roundtrip fragment_codecs ''application/json'' (Prim (Str ''null'')) = Inr (Prim Null)"
    by blast
  from p d c r show ?thesis by blast
qed

section \<open>Malformed configuration fails in the constructor\<close>

text \<open>
  Claim C7. The constructor throws, so that no instance exists and no data can flow, for
  each of: a content type that does not match \<open>CONTENT_TYPES\<close>; a content encoding other
  than \<open>identity\<close>, \<open>gzip\<close> and \<open>deflate\<close>; a declared content length whose number is
  not positive; a limit that is given (neither \<open>null\<close> nor \<open>undefined\<close>) and whose number
  is \<open>NaN\<close> or not positive; and an interval whose number is greater than that of the
  timeout. The error thrown is the \<open>TypeError\<close> of one of these five checks.
\<close>

theorem construction_fails_synchronously:
  assumes "\<not> CONTENT_TYPES_test (get_prop p ''contentType'')
           \<or> \<not> CONTENT_ENCODINGS_test (get_prop p ''contentEncoding'')
           \<or> jsnum_le (to_number str2num (get_prop p ''contentLength'')) (Fin 0)
           \<or> (\<not> eq_null (get_prop p ''limit'')
                \<and> (isNaN (to_number str2num (get_prop p ''limit''))
                     \<or> jsnum_le (to_number str2num (get_prop p ''limit'')) (Fin 0)))
           \<or> jsnum_less (to_number str2num (get_prop p ''timeout''))
                 (to_number str2num (get_prop p ''interval''))"
  shows "\<exists>e. SmartStream str2num now (Some p) = Inl e
           \<and> (e = InvalidMimeType (get_prop p ''contentType'')
                \<or> e = InvalidEncoding (get_prop p ''contentEncoding'')
                \<or> e = InvalidContentLength (get_prop p ''contentLength'')
                \<or> e = InvalidLimit (get_prop p ''limit'')
                \<or> e = TimeoutBelowInterval (get_prop p ''timeout'') (get_prop p ''interval''))"
proof -
  have "\<exists>e. construction_fault str2num (Some p) = Some e
          \<and> (e = InvalidMimeType (get_prop p ''contentType'')
               \<or> e = InvalidEncoding (get_prop p ''contentEncoding'')
               \<or> e = InvalidContentLength (get_prop p ''contentLength'')
               \<or> e = InvalidLimit (get_prop p ''limit'')
               \<or> e = TimeoutBelowInterval (get_prop p ''timeout'') (get_prop p ''interval''))"
    using assms by (auto simp: construction_fault_def)
  then show ?thesis
    by (auto simp: SmartStream_def)
qed

text \<open>
  One malformed configuration for each of the five, on the props of the tests: the type
  \<open>foo/bar\<close>, the encoding \<open>br\<close>, a content length of \<open>-1\<close>, the limit \<open>'foo'\<close>, and a
  timeout of 1000 with an interval of 1001.
\<close>

theorem construction_fails_synchronously_witness:
  "(\<not> CONTENT_TYPES_test (get_prop (props_json(''contentType'' \<mapsto> Str ''foo/bar'')) ''contentType'')
    \<and> SmartStream no_numbers 0 (Some (props_json(''contentType'' \<mapsto> Str ''foo/bar'')))
        = Inl (InvalidMimeType (Str ''foo/bar'')))
   \<and> (\<not> CONTENT_ENCODINGS_test (get_prop (props_json(''contentEncoding'' \<mapsto> Str ''br'')) ''contentEncoding'')
    \<and> SmartStream no_numbers 0 (Some (props_json(''contentEncoding'' \<mapsto> Str ''br'')))
        = Inl (InvalidEncoding (Str ''br'')))
   \<and> (jsnum_le (to_number no_numbers
                   (get_prop (props_json(''contentLength'' \<mapsto> Num (Fin (- 1)))) ''contentLength'')) (Fin 0)
    \<and> SmartStream no_numbers 0 (Some (props_json(''contentLength'' \<mapsto> Num (Fin (- 1)))))
        = Inl (InvalidContentLength (Num (Fin (- 1)))))
   \<and> (\<not> eq_null (get_prop (props_json(''limit'' \<mapsto> Str ''foo'')) ''limit'')
    \<and> isNaN (to_number no_numbers (get_prop (props_json(''limit'' \<mapsto> Str ''foo'')) ''limit''))
    \<and> SmartStream no_numbers 0 (Some (props_json(''limit'' \<mapsto> Str ''foo'')))
        = Inl (InvalidLimit (Str ''foo'')))
   \<and> (jsnum_less
         (to_number no_numbers
            (get_prop (props_json(''timeout'' \<mapsto> Num (Fin 1000), ''interval'' \<mapsto> Num (Fin 1001))) ''timeout''))
         (to_number no_numbers
            (get_prop (props_json(''timeout'' \<mapsto> Num (Fin 1000), ''interval'' \<mapsto> Num (Fin 1001))) ''interval''))
    \<and> SmartStream no_numbers 0
          (Some (props_json(''timeout'' \<mapsto> Num (Fin 1000), ''interval'' \<mapsto> Num (Fin 1001))))
        = Inl (TimeoutBelowInterval (Num (Fin 1000)) (Num (Fin 1001))))"
proof -
  let ?p1 = "props_json(''contentType'' \<mapsto> Str ''foo/bar'')"
  let ?p2 = "props_json(''contentEncoding'' \<mapsto> Str ''br'')"
  let ?p3 = "props_json(''contentLength'' \<mapsto> Num (Fin (- 1)))"
  let ?p4 = "props_json(''limit'' \<mapsto> Str ''foo'')"
  let ?p5 = "props_json(''timeout'' \<mapsto> Num (Fin 1000), ''interval'' \<mapsto> Num (Fin 1001))"
  have g1: "get_prop ?p1 ''contentType'' = Str ''foo/bar''"
       "get_prop ?p1 ''contentEncoding'' = Str ''identity''"
       "get_prop ?p1 ''contentLength'' = Undefined" "get_prop ?p1 ''limit'' = Undefined"
       "get_prop ?p1 ''timeout'' = Undefined" "get_prop ?p1 ''interval'' = Undefined"
    by (simp_all add: get_prop_def props_json_def)
  have g2: "get_prop ?p2 ''contentType'' = Str ''application/json''"
       "get_prop ?p2 ''contentEncoding'' = Str ''br''"
       "get_prop ?p2 ''contentLength'' = Undefined" "get_prop ?p2 ''limit'' = Undefined"
       "get_prop ?p2 ''timeout'' = Undefined" "get_prop ?p2 ''interval'' = Undefined"
    by (simp_all add: get_prop_def props_json_def)
  have g3: "get_prop ?p3 ''contentType'' = Str ''application/json''"
       "get_prop ?p3 ''contentEncoding'' = Str ''identity''"
       "get_prop ?p3 ''contentLength'' = Num (Fin (- 1))" "get_prop ?p3 ''limit'' = Undefined"
       "get_prop ?p3 ''timeout'' = Undefined" "get_prop ?p3 ''interval'' = Undefined"
    by (simp_all add: get_prop_def props_json_def)
  have g4: "get_prop ?p4 ''contentType'' = Str ''application/json''"
       "get_prop ?p4 ''contentEncoding'' = Str ''identity''"
       "get_prop ?p4 ''contentLength'' = Undefined" "get_prop ?p4 ''limit'' = Str ''foo''"
       "get_prop ?p4 ''timeout'' = Undefined" "get_prop ?p4 ''interval'' = Undefined"
    by (simp_all add: get_prop_def props_json_def)
  have g5: "get_prop ?p5 ''contentType'' = Str ''application/json''"
       "get_prop ?p5 ''contentEncoding'' = Str ''identity''"
       "get_prop ?p5 ''contentLength'' = Undefined" "get_prop ?p5 ''limit'' = Undefined"
       "get_prop ?p5 ''timeout'' = Num (Fin 1000)" "get_prop ?p5 ''interval'' = Num (Fin 1001)"
    by (simp_all add: get_prop_def props_json_def)
  have json: "CONTENT_TYPES_test (Str ''application/json'')" by (simp add: pattern_defs Let_def)
  have h1: "\<not> CONTENT_TYPES_test (get_prop ?p1 ''contentType'')"
    unfolding g1 by (simp add: pattern_defs)
  have h2: "\<not> CONTENT_ENCODINGS_test (get_prop ?p2 ''contentEncoding'')"
    unfolding g2 by (simp add: pattern_defs)
  have h3: "jsnum_le (to_number no_numbers (get_prop ?p3 ''contentLength'')) (Fin 0)"
    unfolding g3 by simp
  have h4: "\<not> eq_null (get_prop ?p4 ''limit'')" "isNaN (to_number no_numbers (get_prop ?p4 ''limit''))"
    unfolding g4 by (simp_all add: eq_null_def isNaN_def no_numbers_def)
  have h5: "jsnum_less (to_number no_numbers (get_prop ?p5 ''timeout''))
              (to_number no_numbers (get_prop ?p5 ''interval''))"
    unfolding g5 by simp
  have c1: "SmartStream no_numbers 0 (Some ?p1) = Inl (InvalidMimeType (Str ''foo/bar''))"
    using construction_fails_synchronously[of ?p1 no_numbers 0] h1
    unfolding g1 by (auto simp: SmartStream_def construction_fault_def g1)
  have c2: "SmartStream no_numbers 0 (Some ?p2) = Inl (InvalidEncoding (Str ''br''))"
    using construction_fails_synchronously[of ?p2 no_numbers 0] h2 json
    unfolding g2 by (auto simp: SmartStream_def construction_fault_def g2)
  have c3: "SmartStream no_numbers 0 (Some ?p3) = Inl (InvalidContentLength (Num (Fin (- 1))))"
    using construction_fails_synchronously[of ?p3 no_numbers 0] h3 json
    unfolding g3 by (auto simp: SmartStream_def construction_fault_def g3 CONTENT_ENCODINGS_test_def)
  have c4: "SmartStream no_numbers 0 (Some ?p4) = Inl (InvalidLimit (Str ''foo''))"
    using construction_fails_synchronously[of ?p4 no_numbers 0] h4 json
    unfolding g4 by (auto simp: SmartStream_def construction_fault_def g4 CONTENT_ENCODINGS_test_def)
  have c5: "SmartStream no_numbers 0 (Some ?p5)
              = Inl (TimeoutBelowInterval (Num (Fin 1000)) (Num (Fin 1001)))"
    using construction_fails_synchronously[of ?p5 no_numbers 0] h5 json
    unfolding g5
    by (auto simp: SmartStream_def construction_fault_def g5 CONTENT_ENCODINGS_test_def eq_null_def)
  show ?thesis using h1 h2 h3 h4 h5 c1 c2 c3 c4 c5 by blast
qed

section \<open>A timeout of zero disables stall detection\<close>

lemma destroy_errors:
  "errors (destroy err s) = errors s \<or>
   (\<exists>e. err = Some e \<and> errors (destroy err s) = errors s @ [if isSmartStreamError e then e else Unexpected_of e])"
  by (cases err) (auto simp: destroy_def destroy_cb_def backfill_def)

lemma destroy_no_TimedOut:
  assumes "list_all (\<lambda>e. \<not> isTimedOut e) (errors s)" "\<forall>e. err = Some e \<longrightarrow> \<not> isTimedOut e"
  shows "list_all (\<lambda>e. \<not> isTimedOut e) (errors (destroy err s))"
  using assms destroy_errors[of err s]
  by (auto simp: isTimedOut_def Unexpected_of_def)

lemma destroy_no_SmartTimer: "no_SmartTimer s \<Longrightarrow> no_SmartTimer (destroy err s)"
  by (auto simp: no_SmartTimer_def destroy_def destroy_cb_def backfill_def timer_obj_destroy_def
      split: option.splits timer_obj.splits)

lemma TooLarge_not_TimedOut: "\<not> isTimedOut (TooLarge_of s)"
  by (simp add: isTimedOut_def TooLarge_of_def)

lemma transform_no_SmartTimer:
  assumes "no_SmartTimer s" "transform s c = Inr (s', r)"
  shows "no_SmartTimer s' \<and> errors s' = errors s \<and> (\<forall>err. r = Inl err \<longrightarrow> \<not> isTimedOut err)"
  using assms
  by (auto simp: transform_def Let_def no_SmartTimer_def timer_touch_def TooLarge_not_TimedOut
      split: if_splits option.splits timer_obj.splits)

lemma step_no_SmartTimer:
  assumes inv: "no_SmartTimer s" "list_all (\<lambda>e. \<not> isTimedOut e) (errors s)"
    and ev: "\<not> brings_TimedOut ev" and st: "step s ev = Inr s'"
  shows "no_SmartTimer s' \<and> list_all (\<lambda>e. \<not> isTimedOut e) (errors s')"
proof (cases ev)
  case (Write c)
  show ?thesis
  proof (cases "status s = Open")
    case True
    with st Write obtain s1 r where t: "transform s c = Inr (s1, r)"
      by (cases "transform s c") (auto split: prod.splits)
    from transform_no_SmartTimer[OF inv(1) t]
    have s1: "no_SmartTimer s1" "errors s1 = errors s" "\<forall>err. r = Inl err \<longrightarrow> \<not> isTimedOut err"
      by auto
    show ?thesis
    proof (cases r)
      case (Inl err)
      with st Write True t have "s' = destroy (Some err) s1" by simp
      with s1 inv(2) Inl show ?thesis
        by (simp add: destroy_no_SmartTimer destroy_no_TimedOut)
    next
      case (Inr out)
      with st Write True t have "s' = s1\<lparr>pushed := pushed s1 @ [out]\<rparr>" by simp
      with s1 inv(2) show ?thesis by (simp add: no_SmartTimer_def)
    qed
  next
    case False
    with st Write inv show ?thesis by simp
  qed
next
  case End
  with st inv show ?thesis
    by (auto simp: flush_def backfill_def no_SmartTimer_def timer_obj_destroy_def
        split: if_splits option.splits timer_obj.splits)
next
  case (Destroy err)
  with ev have "\<forall>e. err = Some e \<longrightarrow> \<not> isTimedOut e" by (auto simp: brings_TimedOut_def)
  with st Destroy inv show ?thesis
    by (auto simp: destroy_no_SmartTimer destroy_no_TimedOut)
next
  case Immediate
  have "no_SmartTimer (s\<lparr>pending := False\<rparr>)"
       "list_all (\<lambda>e. \<not> isTimedOut e) (errors (s\<lparr>pending := False\<rparr>))"
    using inv by (simp_all add: no_SmartTimer_def)
  with st Immediate inv show ?thesis
    by (auto simp: destroy_no_SmartTimer destroy_no_TimedOut TooLarge_not_TimedOut split: if_splits)
next
  case (TimeoutFire t)
  with st inv show ?thesis
    by (auto simp: no_SmartTimer_def split: option.splits timer_obj.splits)
next
  case (IntervalFire t)
  with st inv show ?thesis
    by (auto simp: no_SmartTimer_def split: option.splits timer_obj.splits)
qed

lemma run_no_SmartTimer:
  assumes "no_SmartTimer s" "list_all (\<lambda>e. \<not> isTimedOut e) (errors s)"
    and "list_all (\<lambda>ev. \<not> brings_TimedOut ev) es" and "run s es = Inr s'"
  shows "no_SmartTimer s' \<and> list_all (\<lambda>e. \<not> isTimedOut e) (errors s')"
  using assms
proof (induction es arbitrary: s)
  case Nil
  then show ?case by simp
next
  case (Cons ev es)
  from Cons.prems(4) obtain s1 where s1: "step s ev = Inr s1" and rest: "run s1 es = Inr s'"
    by (cases "step s ev") auto
  from Cons.prems(3) have ev: "\<not> brings_TimedOut ev" and es: "list_all (\<lambda>ev. \<not> brings_TimedOut ev) es"
    by simp_all
  from step_no_SmartTimer[OF Cons.prems(1,2) ev s1]
  have "no_SmartTimer s1" "list_all (\<lambda>e. \<not> isTimedOut e) (errors s1)" by auto
  then show ?case using es rest by (rule Cons.IH)
qed

text \<open>
  Claim C8. Take an instance the constructor has returned for props whose timeout is the
  number \<open>0\<close>. Its timeout is \<open>0\<close> and it has no \<open>SmartTimer\<close>: its timer is the no-op
  object, whose \<open>touch\<close> and \<open>destroy\<close> change nothing (or no timer at all, when the
  declared length exceeds the limit). Whatever happens to the instance afterwards,
  writes, the end of input, calls of \<open>destroy\<close>, callbacks of the event loop at any clock
  value, it keeps having no \<open>SmartTimer\<close> and emits no \<open>TimedOut\<close> error, unless a caller
  hands one to \<open>destroy\<close>.
\<close>

theorem timeout_zero_never_times_out:
  assumes made: "SmartStream str2num now (Some p) = Inr s"
    and zero: "to_number str2num (get_prop p ''timeout'') = Fin 0"
  shows "timeout s = Fin 0
         \<and> (timer s = Some NOOP \<or> timer s = None)
         \<and> timer_touch NOOP = Inr NOOP \<and> timer_obj_destroy NOOP = NOOP
         \<and> (\<forall>es s'. list_all (\<lambda>ev. \<not> brings_TimedOut ev) es \<longrightarrow> run s es = Inr s'
               \<longrightarrow> no_SmartTimer s' \<and> list_all (\<lambda>e. \<not> isTimedOut e) (errors s'))"
proof -
  have t0: "timeout (init_fields str2num p) = Fin 0"
    using zero by (simp add: init_fields_def Let_def)
  from made have st: "timeout s = Fin 0 \<and> (timer s = Some NOOP \<or> timer s = None) \<and> errors s = []"
    by (cases rule: SmartStream_cases) (use t0 in \<open>auto simp: init_fields_fresh\<close>)
  then have inv: "no_SmartTimer s" "list_all (\<lambda>e. \<not> isTimedOut e) (errors s)"
    by (auto simp: no_SmartTimer_def)
  have "\<forall>es s'. list_all (\<lambda>ev. \<not> brings_TimedOut ev) es \<longrightarrow> run s es = Inr s'
          \<longrightarrow> no_SmartTimer s' \<and> list_all (\<lambda>e. \<not> isTimedOut e) (errors s')"
    using run_no_SmartTimer[OF inv] by simp
  moreover have "timer_touch NOOP = Inr NOOP" "timer_obj_destroy NOOP = NOOP"
    by (simp_all add: timer_touch_def timer_obj_destroy_def)
  ultimately show ?thesis using st by simp
qed

text \<open>
  The theorem at the stream with a limit of ten bytes and a timeout of \<open>0\<close>: a day
  without data, with the event loop trying both timer callbacks, raises nothing.
\<close>

theorem timeout_zero_never_times_out_witness:
  "SmartStream no_numbers 0 (Some props_json_10) = Inr stream_json_10
   \<and> to_number no_numbers (get_prop props_json_10 ''timeout'') = Fin 0
   \<and> list_all (\<lambda>ev. \<not> brings_TimedOut ev) [IntervalFire 1000, TimeoutFire 30000, TimeoutFire 86400000]
   \<and> run stream_json_10 [IntervalFire 1000, TimeoutFire 30000, TimeoutFire 86400000] = Inr stream_json_10
   \<and> timer stream_json_10 = Some NOOP
   \<and> no_SmartTimer stream_json_10
   \<and> list_all (\<lambda>e. \<not> isTimedOut e) (errors stream_json_10)"
proof -
  have h1: "SmartStream no_numbers 0 (Some props_json_10) = Inr stream_json_10"
    by (rule SmartStream_props_json_10)
  have h2: "to_number no_numbers (get_prop props_json_10 ''timeout'') = Fin 0"
    by (simp add: props_json_10_def get_prop_def)
  have h3: "list_all (\<lambda>ev. \<not> brings_TimedOut ev) [IntervalFire 1000, TimeoutFire 30000, TimeoutFire 86400000]"
    by (simp add: brings_TimedOut_def)
  have r: "run stream_json_10 [IntervalFire 1000, TimeoutFire 30000, TimeoutFire 86400000]
             = Inr stream_json_10"
    by (simp add: stream_json_10_def)
  have tm: "timer stream_json_10 = Some NOOP" by (simp add: stream_json_10_def)
  from timeout_zero_never_times_out[OF h1 h2]
  have "list_all (\<lambda>ev. \<not> brings_TimedOut ev) [IntervalFire 1000, TimeoutFire 30000, TimeoutFire 86400000]
          \<longrightarrow> run stream_json_10 [IntervalFire 1000, TimeoutFire 30000, TimeoutFire 86400000]
                = Inr stream_json_10
          \<longrightarrow> no_SmartTimer stream_json_10
              \<and> list_all (\<lambda>e. \<not> isTimedOut e) (errors stream_json_10)"
    by (elim conjE allE)
  with h3 r have "no_SmartTimer stream_json_10
      \<and> list_all (\<lambda>e. \<not> isTimedOut e) (errors stream_json_10)"
    by (elim impE) assumption+
  then show ?thesis using h1 h2 h3 r tm by (intro conjI) (elim conjE, assumption)+
qed

text \<open>
  For contrast, a positive timeout does detect a stall: with a timeout of 500 ms, the
  timeout callback at clock value 500 destroys the stream with \<open>TimedOut\<close> and a duration
  of 500.
\<close>

lemma positive_timeout_times_out:
  "SmartStream no_numbers 0 (Some props_json_500) = Inr stream_json_500
   \<and> (\<exists>s'. step stream_json_500 (TimeoutFire 500) = Inr s' \<and> status s' = Destroyed
          \<and> errors s' = [SmartStreamError TimedOut (MetaObj [''duration'' \<mapsto> Num (Fin 500)]) None])"
proof -
  have "SmartStream no_numbers 0 (Some props_json_500) = Inr stream_json_500"
    by (simp add: props_json_500_def stream_json_500_def constructor_defs pattern_defs Let_def)
  moreover have "\<exists>s'. step stream_json_500 (TimeoutFire 500) = Inr s' \<and> status s' = Destroyed
          \<and> errors s' = [SmartStreamError TimedOut (MetaObj [''duration'' \<mapsto> Num (Fin 500)]) None]"
    by (simp add: stream_json_500_def onTimeout_def onInterval_def callback_defs Let_def)
  ultimately show ?thesis by blast
qed

section \<open>A stream made from a buffer\<close>

lemma fromBuffer_props:
  fixes props :: "obj option" and a b :: prim
  defines "q \<equiv> assign CREATE_DEFAULTS
                 (Some (assign (assign CREATE_DEFAULTS props)
                          (Some [''contentLength'' \<mapsto> a, ''limit'' \<mapsto> b])))"
  shows "get_prop q ''contentLength'' = a" "get_prop q ''limit'' = b"
    "get_prop q ''contentType'' = get_prop (assign CREATE_DEFAULTS props) ''contentType''"
    "get_prop q ''contentEncoding'' = get_prop (assign CREATE_DEFAULTS props) ''contentEncoding''"
  unfolding q_def
  by (simp_all add: assign_def get_prop_def map_add_def CREATE_DEFAULTS_def split: option.splits)

lemma SmartStream_kept:
  assumes "SmartStream str2num now (Some p) = Inr s"
  shows "contentLength s = contentLength (init_fields str2num p)"
    and "limit s = limit (init_fields str2num p)"
    and "construction_fault str2num (Some p) = None"
  using assms by (cases rule: SmartStream_cases; simp)+

lemma run_writes_then_end:
  assumes "status s = Open" "timer_live s" "\<not> exceeds (size_s s + total_bytes cs) (limit s)"
  shows "run s (map Write cs @ [End]) = Inr ((flush (after_writes s cs))\<lparr>status := Flushed\<rparr>)"
proof -
  from assms have "run s (map Write cs) = Inr (after_writes s cs)"
    by (rule run_writes_within)
  then show ?thesis
    using assms(1) by (simp add: run_append after_writes_def)
qed

lemma fromBuffer_unfold:
  "fromBuffer str2num now buf props =
     (case SmartStream str2num now
             (Some (assign CREATE_DEFAULTS
                (Some (assign (assign CREATE_DEFAULTS props)
                   (Some [''contentLength'' \<mapsto> Num (Fin (of_nat (byteLength buf))),
                          ''limit'' \<mapsto> Num (Fin (of_nat (byteLength buf)))]))))) of
        Inl e \<Rightarrow> Inl e
      | Inr stream \<Rightarrow> run stream [Write buf, End])"
  by (simp add: fromBuffer_def create_def)

text \<open>
  Claim C9. The instance \<open>fromBuffer\<close> returns has the byte length of the buffer as its
  content length and as its limit (and, the buffer written and the input ended, is
  flushed with that size). For the empty buffer \<open>fromBuffer\<close> returns no instance
  whatever the props are: it throws; and when the content type and the content encoding
  (given or default) are valid, what it throws is the error of the content-length check,
  for the length \<open>0\<close>.
\<close>

theorem fromBuffer_length_is_limit:
  "(fromBuffer str2num now buf props = Inr s \<longrightarrow>
      contentLength s = Some (Fin (of_nat (byteLength buf)))
      \<and> limit s = Fin (of_nat (byteLength buf))
      \<and> status s = Flushed \<and> size_s s = byteLength buf \<and> pushed s = [buf] \<and> errors s = [])
   \<and> (\<exists>e. fromBuffer str2num now [] props = Inl e)
   \<and> (CONTENT_TYPES_test (get_prop (assign CREATE_DEFAULTS props) ''contentType'')
        \<and> CONTENT_ENCODINGS_test (get_prop (assign CREATE_DEFAULTS props) ''contentEncoding'')
      \<longrightarrow> fromBuffer str2num now [] props = Inl (InvalidContentLength (Num (Fin 0))))"
proof -
  define n where "n = Fin (of_nat (byteLength buf))"
  define q where "q = assign CREATE_DEFAULTS
              (Some (assign (assign CREATE_DEFAULTS props)
                       (Some [''contentLength'' \<mapsto> Num n, ''limit'' \<mapsto> Num n])))"
  define q0 where "q0 = assign CREATE_DEFAULTS
              (Some (assign (assign CREATE_DEFAULTS props)
                       (Some [''contentLength'' \<mapsto> Num (Fin (of_nat (byteLength []))),
                              ''limit'' \<mapsto> Num (Fin (of_nat (byteLength [])))])))"
  have fb: "fromBuffer str2num now buf props =
      (case SmartStream str2num now (Some q) of Inl e \<Rightarrow> Inl e | Inr stream \<Rightarrow> run stream [Write buf, End])"
    unfolding q_def n_def by (rule fromBuffer_unfold)
  have fb0: "fromBuffer str2num now [] props =
      (case SmartStream str2num now (Some q0) of Inl e \<Rightarrow> Inl e | Inr stream \<Rightarrow> run stream [Write [], End])"
    unfolding q0_def by (rule fromBuffer_unfold)
  have gq: "get_prop q ''contentLength'' = Num n" "get_prop q ''limit'' = Num n"
    unfolding q_def by (rule fromBuffer_props)+
  have gq0: "get_prop q0 ''contentLength'' = Num (Fin 0)"
    "get_prop q0 ''contentType'' = get_prop (assign CREATE_DEFAULTS props) ''contentType''"
    "get_prop q0 ''contentEncoding'' = get_prop (assign CREATE_DEFAULTS props) ''contentEncoding''"
    unfolding q0_def by (simp_all add: fromBuffer_props byteLength_def)
  have first: "contentLength s = Some n \<and> limit s = n \<and> status s = Flushed
        \<and> size_s s = byteLength buf \<and> pushed s = [buf] \<and> errors s = []"
    if ret: "fromBuffer str2num now buf props = Inr s"
  proof -
    from ret fb obtain s0 where made: "SmartStream str2num now (Some q) = Inr s0"
      and ran: "run s0 [Write buf, End] = Inr s"
      by (cases "SmartStream str2num now (Some q)") auto
    note kept = SmartStream_kept[OF made]
    have "\<not> jsnum_le n (Fin 0)"
    proof
      assume "jsnum_le n (Fin 0)"
      then have "construction_fault str2num (Some q) \<noteq> None"
        by (simp add: construction_fault_def gq)
      with kept(3) show False by simp
    qed
    then have pos: "truthy n" by (auto simp: truthy_def n_def)
    have s0: "contentLength s0 = Some n" "limit s0 = n"
      using pos kept(1,2) by (simp_all add: init_fields_def Let_def gq)
    have "\<not> jsnum_less n n" by (simp add: n_def)
    then have within: "\<not> declared_exceeds_limit s0"
      using s0 by (simp add: declared_exceeds_limit_def)
    from SmartStream_fresh[OF made] within
    have fresh: "status s0 = Open" "size_s s0 = 0" "errors s0 = []" "pushed s0 = []" "timer_live s0"
      by auto
    have "\<not> exceeds (size_s s0 + total_bytes [buf]) (limit s0)"
      using fresh(2) s0(2) by (simp add: total_bytes_def exceeds_def n_def)
    with fresh have "run s0 (map Write [buf] @ [End])
                 = Inr ((flush (after_writes s0 [buf]))\<lparr>status := Flushed\<rparr>)"
      by (intro run_writes_then_end)
    moreover from ran have "run s0 (map Write [buf] @ [End]) = Inr s" by simp
    ultimately have s: "s = (flush (after_writes s0 [buf]))\<lparr>status := Flushed\<rparr>"
      by (simp only: sum.inject)
    show ?thesis
      using s0 fresh by (simp add: s flush_def backfill_def after_writes_def total_bytes_def)
  qed
  have "construction_fault str2num (Some q0) \<noteq> None"
    by (simp add: construction_fault_def gq0)
  then have second: "\<exists>e. fromBuffer str2num now [] props = Inl e"
    unfolding fb0 by (auto simp: SmartStream_def)
  have third: "fromBuffer str2num now [] props = Inl (InvalidContentLength (Num (Fin 0)))"
    if "CONTENT_TYPES_test (get_prop (assign CREATE_DEFAULTS props) ''contentType'')
        \<and> CONTENT_ENCODINGS_test (get_prop (assign CREATE_DEFAULTS props) ''contentEncoding'')"
  proof -
    from that have "construction_fault str2num (Some q0) = Some (InvalidContentLength (Num (Fin 0)))"
      by (simp add: construction_fault_def gq0)
    then show ?thesis unfolding fb0 by (simp add: SmartStream_def)
  qed
  from first second third show ?thesis
    unfolding n_def by blast
qed

text \<open>
  The theorem at a buffer of three bytes and at the empty buffer, with no props: the
  first gives a flushed stream of length and limit three, the second throws the error
  of the content-length check.
\<close>

theorem fromBuffer_length_is_limit_witness:
  "(\<exists>s. fromBuffer no_numbers 0 ''abc'' None = Inr s
       \<and> contentLength s = Some (Fin 3) \<and> limit s = Fin 3
       \<and> status s = Flushed \<and> size_s s = 3 \<and> pushed s = [''abc''] \<and> errors s = [])
   \<and> CONTENT_TYPES_test (get_prop (assign CREATE_DEFAULTS None) ''contentType'')
   \<and> CONTENT_ENCODINGS_test (get_prop (assign CREATE_DEFAULTS None) ''contentEncoding'')
   \<and> fromBuffer no_numbers 0 [] None = Inl (InvalidContentLength (Num (Fin 0)))"
proof -
  have "\<exists>s. fromBuffer no_numbers 0 ''abc'' None = Inr s"
    by (simp add: fromBuffer_def constructor_defs pattern_defs callback_defs Let_def)
  then obtain s where r: "fromBuffer no_numbers 0 ''abc'' None = Inr s" ..
  have h1: "CONTENT_TYPES_test (get_prop (assign CREATE_DEFAULTS None) ''contentType'')"
    by (simp add: assign_def CREATE_DEFAULTS_def get_prop_def pattern_defs Let_def)
  have h2: "CONTENT_ENCODINGS_test (get_prop (assign CREATE_DEFAULTS None) ''contentEncoding'')"
    by (simp add: assign_def CREATE_DEFAULTS_def get_prop_def pattern_defs)
  note inst = fromBuffer_length_is_limit[of no_numbers 0 "''abc''" None s]
  from inst r have "contentLength s = Some (Fin 3) \<and> limit s = Fin 3
       \<and> status s = Flushed \<and> size_s s = 3 \<and> pushed s = [''abc''] \<and> errors s = []"
    by (simp add: byteLength_def)
  with r have first: "\<exists>s. fromBuffer no_numbers 0 ''abc'' None = Inr s
       \<and> contentLength s = Some (Fin 3) \<and> limit s = Fin 3
       \<and> status s = Flushed \<and> size_s s = 3 \<and> pushed s = [''abc''] \<and> errors s = []"
    by blast
  from inst h1 h2 have "fromBuffer no_numbers 0 [] None = Inl (InvalidContentLength (Num (Fin 0)))"
    by blast
  with first h1 h2 show ?thesis by blast
qed

end
